theory Spec2Isabelle
  imports
    Complex_Main
    "HOL-Library.Char_ord"
    "HOL-Library.List_Lexorder"
    "HOL-Library.Multiset"
    "HOL-Library.Product_Lexorder"
begin

section \<open>Axis frames and errors\<close>

text \<open>
  An action (axis frame) of the teleoperation scripts is a Python \<open>dict[str, float]\<close>.
  The filters only look keys up and overwrite one entry, so there a frame is a map from
  the axis name to its position. Python floats are read as real numbers: infinities and
  NaN are outside the model, and so is the rounding, except for the moving average,
  whose sum and quotient are also given with the rounding of Python (further down).
\<close>

type_synonym frame = "string \<rightharpoonup> real"

datatype py_error =
    ZeroDivisionError
  | FileNotFoundError
  | UnpicklingError
  | ValueError string
  | TypeError
  | KeyError
  | DeviceError

section \<open>\<open>lerobot/teleoperate_filtered.py\<close>: the wrist roll filter\<close>

datatype FilterType = NONE | DEADZONE | MOVING_AVERAGE | GRIPPER_LINKED | COMBINED

record TeleoperateFilteredConfig =
  filter_type :: FilterType
  deadzone_threshold :: real
  moving_average_window :: int
  gripper_change_threshold :: real

text \<open>
  \<open>WristRollFilter.__init__\<close> copies the four configuration values into the object and
  never writes them again; the model reads them through \<open>config\<close>.
\<close>

record WristRollFilter =
  config :: TeleoperateFilteredConfig
  wrist_roll_history :: "real list"
  prev_gripper_value :: "real option"
  prev_wrist_roll_value :: "real option"

definition WristRollFilter_init :: "TeleoperateFilteredConfig \<Rightarrow> WristRollFilter" where
  "WristRollFilter_init cfg =
     \<lparr>config = cfg, wrist_roll_history = [], prev_gripper_value = None,
      prev_wrist_roll_value = None\<rparr>"

definition wrist_roll_key :: string where
  "wrist_roll_key = ''wrist_roll.pos''"

definition gripper_key :: string where
  "gripper_key = ''gripper.pos''"

text \<open>The dead zone block of \<open>apply_filter\<close> (source lines 135 to 137).\<close>

definition deadzone_stage :: "WristRollFilter \<Rightarrow> real \<Rightarrow> real" where
  "deadzone_stage self filtered_value =
     (if filter_type (config self) \<in> set [DEADZONE, COMBINED]
      then (if \<bar>filtered_value\<bar> < deadzone_threshold (config self) then 0 else filtered_value)
      else filtered_value)"

text \<open>
  The moving average block (source lines 140 to 145): append, drop the oldest entry when
  the list got longer than the window, then divide the sum by the length. The division
  raises \<open>ZeroDivisionError\<close> when the list is empty, which happens exactly when the
  window is not positive.
\<close>

definition moving_average_stage ::
  "WristRollFilter \<Rightarrow> real \<Rightarrow> py_error + (WristRollFilter \<times> real)" where
  "moving_average_stage self filtered_value =
     (if filter_type (config self) \<in> set [MOVING_AVERAGE, COMBINED]
      then
        (let h1 = wrist_roll_history self @ [filtered_value];
             h2 = (if int (length h1) > moving_average_window (config self) then tl h1 else h1)
         in if h2 = [] then Inl ZeroDivisionError
            else Inr (self\<lparr>wrist_roll_history := h2\<rparr>, sum_list h2 / real (length h2)))
      else Inr (self, filtered_value))"

text \<open>The gripper linked block (source lines 148 to 160).\<close>

definition gripper_linked_stage ::
  "WristRollFilter \<Rightarrow> frame \<Rightarrow> real \<Rightarrow> WristRollFilter \<times> real" where
  "gripper_linked_stage self action filtered_value =
     (if filter_type (config self) \<in> set [GRIPPER_LINKED, COMBINED]
      then
        (case action gripper_key of
           None \<Rightarrow> (self, filtered_value)
         | Some current_gripper_value \<Rightarrow>
             (let fv =
                (case prev_gripper_value self of
                   None \<Rightarrow> filtered_value
                 | Some pg \<Rightarrow>
                     (case prev_wrist_roll_value self of
                        None \<Rightarrow> filtered_value
                      | Some pw \<Rightarrow>
                          (if \<bar>current_gripper_value - pg\<bar> > gripper_change_threshold (config self)
                           then pw else filtered_value)))
              in (self\<lparr>prev_gripper_value := Some current_gripper_value\<rparr>, fv)))
      else (self, filtered_value))"

text \<open>
  \<open>WristRollFilter.apply_filter\<close>. The Python method mutates the object and the
  dictionary in place; the model returns the new filter and the new frame, or the
  exception.
\<close>

definition WristRollFilter_apply_filter ::
  "WristRollFilter \<Rightarrow> frame \<Rightarrow> py_error + (WristRollFilter \<times> frame)" where
  "WristRollFilter_apply_filter self action =
     (case action wrist_roll_key of
        None \<Rightarrow> Inr (self, action)
      | Some original_value \<Rightarrow>
          (if filter_type (config self) = NONE then Inr (self, action)
           else
             (case moving_average_stage self (deadzone_stage self original_value) of
                Inl e \<Rightarrow> Inl e
              | Inr (self1, fv1) \<Rightarrow>
                  (case gripper_linked_stage self1 action fv1 of
                     (self2, fv2) \<Rightarrow>
                       Inr (self2\<lparr>prev_wrist_roll_value := Some fv2\<rparr>,
                            action(wrist_roll_key \<mapsto> fv2))))))"

text \<open>
  The teleoperation loop hands one frame per tick to the filter. \<open>run_wrist_filter\<close>
  feeds a finite sequence of frames and collects the filtered frames; an exception ends
  the run, as it ends the loop.
\<close>

fun run_wrist_filter ::
  "WristRollFilter \<Rightarrow> frame list \<Rightarrow> py_error + (WristRollFilter \<times> frame list)" where
  "run_wrist_filter self [] = Inr (self, [])"
| "run_wrist_filter self (a # as) =
     (case WristRollFilter_apply_filter self a of
        Inl e \<Rightarrow> Inl e
      | Inr (self1, a1) \<Rightarrow>
          (case run_wrist_filter self1 as of
             Inl e \<Rightarrow> Inl e
           | Inr (self2, outs) \<Rightarrow> Inr (self2, a1 # outs)))"

section \<open>\<open>lerobot/teleoperate_elbow_filter.py\<close>: the elbow linked filter\<close>

record ElbowFlexFilter =
  elbow_threshold :: real
  wrist_deadzone :: real
  filter_strength :: real
  adaptive_threshold :: bool
  prev_elbow_value :: "real option"
  prev_wrist_value :: "real option"
  elbow_changes_history :: "real list"
  max_history_size :: int
  total_frames :: int
  filtered_frames :: int

definition ElbowFlexFilter_init :: "real \<Rightarrow> real \<Rightarrow> real \<Rightarrow> bool \<Rightarrow> ElbowFlexFilter" where
  "ElbowFlexFilter_init thr dz str ad =
     \<lparr>elbow_threshold = thr, wrist_deadzone = dz, filter_strength = str,
      adaptive_threshold = ad, prev_elbow_value = None, prev_wrist_value = None,
      elbow_changes_history = [], max_history_size = 100, total_frames = 0,
      filtered_frames = 0\<rparr>"

definition elbow_key :: string where
  "elbow_key = ''elbow_flex.pos''"

definition wrist_key :: string where
  "wrist_key = ''wrist_roll.pos''"

text \<open>\<open>np.mean\<close> and \<open>np.std\<close> (the population standard deviation) of a list.\<close>

definition np_mean :: "real list \<Rightarrow> real" where
  "np_mean xs = sum_list xs / real (length xs)"

definition np_std :: "real list \<Rightarrow> real" where
  "np_std xs = sqrt (np_mean (map (\<lambda>x. \<bar>x - np_mean xs\<bar> ^ 2) xs))"

definition update_adaptive_threshold :: "ElbowFlexFilter \<Rightarrow> real \<Rightarrow> ElbowFlexFilter" where
  "update_adaptive_threshold self elbow_change =
     (if \<not> adaptive_threshold self then self
      else
        (let h1 = elbow_changes_history self @ [elbow_change];
             h2 = (if int (length h1) > max_history_size self then tl h1 else h1);
             self1 = self\<lparr>elbow_changes_history := h2\<rparr>
         in if length h2 \<ge> 10
            then
              (let mean_change = np_mean h2;
                   std_change = np_std h2;
                   new_threshold = mean_change + 1.5 * std_change
               in self1\<lparr>elbow_threshold := 0.9 * elbow_threshold self1 + 0.1 * new_threshold\<rparr>)
            else self1))"

text \<open>
  \<open>ElbowFlexFilter.apply_filter\<close>. No statement of the method can raise on a frame of
  floats, so the model is a total function to the new filter and the new frame.
\<close>

definition ElbowFlexFilter_apply_filter ::
  "ElbowFlexFilter \<Rightarrow> frame \<Rightarrow> ElbowFlexFilter \<times> frame" where
  "ElbowFlexFilter_apply_filter self action =
     (case action elbow_key of
        None \<Rightarrow> (self, action)
      | Some current_elbow \<Rightarrow>
          (case action wrist_key of
             None \<Rightarrow> (self, action)
           | Some current_wrist \<Rightarrow>
               (let self1 = self\<lparr>total_frames := total_frames self + 1\<rparr>
                in case prev_elbow_value self1 of
                     None \<Rightarrow>
                       (self1\<lparr>prev_elbow_value := Some current_elbow,
                              prev_wrist_value := Some current_wrist\<rparr>, action)
                   | Some pe \<Rightarrow>
                       (let elbow_change = \<bar>current_elbow - pe\<bar>;
                            self2 = update_adaptive_threshold self1 elbow_change;
                            should_filter = (elbow_change > elbow_threshold self2);
                            action1 =
                              (if \<not> should_filter \<and> \<bar>current_wrist\<bar> < wrist_deadzone self2
                               then action(wrist_key \<mapsto> 0) else action);
                            self3 =
                              (if should_filter
                               then self2\<lparr>filtered_frames := filtered_frames self2 + 1\<rparr>
                               else self2);
                            action2 =
                              (if should_filter
                               then action1(wrist_key \<mapsto>
                                      (case prev_wrist_value self2 of
                                         Some pw \<Rightarrow>
                                           (1 - filter_strength self2) * current_wrist
                                             + filter_strength self2 * pw
                                       | None \<Rightarrow> current_wrist))
                               else action1)
                        in (self3\<lparr>prev_elbow_value := Some current_elbow,
                                  prev_wrist_value := action2 wrist_key\<rparr>, action2)))))"

fun run_elbow_filter :: "ElbowFlexFilter \<Rightarrow> frame list \<Rightarrow> ElbowFlexFilter \<times> frame list" where
  "run_elbow_filter self [] = (self, [])"
| "run_elbow_filter self (a # as) =
     (case ElbowFlexFilter_apply_filter self a of
        (self1, a1) \<Rightarrow>
          (case run_elbow_filter self1 as of
             (self2, outs) \<Rightarrow> (self2, a1 # outs)))"

section \<open>\<open>record_motion.py\<close> and \<open>record_with_teleop.py\<close>: the motion recorder\<close>

text \<open>
  A recorded frame is the dictionary \<open>{"timestamp": t, "action": a}\<close>. The key order of
  the action matters here (\<open>motor_names\<close> lists the keys in order), so the action is an
  association list with the keys in insertion order.
\<close>

type_synonym action = "(string \<times> real) list"

record timed_frame =
  timestamp :: real
  frame_action :: action

text \<open>
  The values a recording dictionary holds, and the dictionary itself. A file either
  unpickles to such a dictionary or does not unpickle at all.
\<close>

datatype pyval = PInt int | PFloat real | PFrames "timed_frame list" | PNames "string list"

type_synonym pydict = "string \<rightharpoonup> pyval"

datatype file_content = Garbage | Pickled pydict

type_synonym filesystem = "string \<rightharpoonup> file_content"

text \<open>The dictionary \<open>data\<close> that \<open>save_recording\<close> builds (the same in both scripts).\<close>

definition recording_data :: "timed_frame list \<Rightarrow> int \<Rightarrow> pydict" where
  "recording_data frames fps =
     [''fps'' \<mapsto> PInt fps,
      ''frames'' \<mapsto> PFrames frames,
      ''num_frames'' \<mapsto> PInt (int (length frames)),
      ''duration'' \<mapsto> (case frames of [] \<Rightarrow> PInt 0 | _ # _ \<Rightarrow> PFloat (timestamp (last frames))),
      ''motor_names'' \<mapsto> PNames (case frames of [] \<Rightarrow> [] | f # _ \<Rightarrow> map fst (frame_action f))]"

definition save_recording :: "timed_frame list \<Rightarrow> string \<Rightarrow> int \<Rightarrow> filesystem \<Rightarrow> filesystem" where
  "save_recording frames output_path fps fs =
     fs(output_path \<mapsto> Pickled (recording_data frames fps))"

text \<open>
  The devices are external. What a session can observe of them is scripted: whether
  \<open>connect\<close> returns or raises (and what \<open>is_connected\<close> says after it raised), whether
  \<open>disconnect\<close> raises, and which actions \<open>send_action\<close> accepts.
\<close>

datatype connect_result = ConnectOk | ConnectRaises bool

record device =
  on_connect :: connect_result
  disconnect_raises :: bool
  accepts :: "action \<Rightarrow> bool"

text \<open>
  One step of the recording loop as the script sees it: \<open>get_action\<close> (and, with
  teleoperation, \<open>send_action\<close>) returned and the frame was stamped; or the user
  interrupted; or a device call raised.
\<close>

datatype loop_event = Got action real | Interrupt | Fault

datatype raised = KeyboardInterrupt | Exception

datatype outcome = Returned | Propagated

datatype event =
    Disconnected string
  | Saved string
  | NoFramesRecorded
  | ErrorLoading py_error
  | Sent action
  | Skipped string
  | Paused

record world =
  leader_connected :: bool
  follower_connected :: bool
  files :: filesystem
  trace :: "event list"

text \<open>
  The \<open>while True\<close> loop of \<open>main\<close>. It only ends by an exception, so on a script with
  no interrupt and no fault the loop has not ended: the result is \<open>None\<close>. With
  \<open>fps = 0\<close> the progress test \<open>frame_count % args.fps\<close> raises after the first frame
  was appended.
\<close>

fun record_loop ::
  "int \<Rightarrow> timed_frame list \<Rightarrow> loop_event list \<Rightarrow> (raised \<times> timed_frame list) option" where
  "record_loop fps frames [] = None"
| "record_loop fps frames (Got a t # rest) =
     (let frames1 = frames @ [\<lparr>timestamp = t, frame_action = a\<rparr>]
      in if fps = 0 then Some (Exception, frames1) else record_loop fps frames1 rest)"
| "record_loop fps frames (Interrupt # rest) = Some (KeyboardInterrupt, frames)"
| "record_loop fps frames (Fault # rest) = Some (Exception, frames)"

text \<open>The last two statements of both \<open>finally\<close> blocks: save or report.\<close>

definition save_if_any :: "timed_frame list \<Rightarrow> string \<Rightarrow> int \<Rightarrow> world \<Rightarrow> world" where
  "save_if_any frames output fps w =
     (if frames \<noteq> []
      then w\<lparr>files := save_recording frames output fps (files w),
             trace := trace w @ [Saved output]\<rparr>
      else w\<lparr>trace := trace w @ [NoFramesRecorded]\<rparr>)"

definition after_handlers :: "raised \<Rightarrow> outcome" where
  "after_handlers r = (case r of KeyboardInterrupt \<Rightarrow> Returned | Exception \<Rightarrow> Propagated)"

text \<open>
  \<open>record_motion.main\<close>: the \<open>try\<close> body, then the \<open>finally\<close> block. An exception
  raised by \<open>leader.disconnect()\<close> leaves the \<open>finally\<close> block at once.
\<close>

definition record_motion_finally ::
  "device \<Rightarrow> string \<Rightarrow> int \<Rightarrow> raised \<Rightarrow> timed_frame list \<Rightarrow> world \<Rightarrow> outcome \<times> world" where
  "record_motion_finally leader output fps r frames w =
     (if leader_connected w
      then
        (if disconnect_raises leader then (Propagated, w)
         else (after_handlers r,
               save_if_any frames output fps
                 (w\<lparr>leader_connected := False, trace := trace w @ [Disconnected ''leader'']\<rparr>)))
      else (after_handlers r, save_if_any frames output fps w))"

definition record_motion_main ::
  "device \<Rightarrow> string \<Rightarrow> int \<Rightarrow> loop_event list \<Rightarrow> world \<Rightarrow> (outcome \<times> world) option" where
  "record_motion_main leader output fps script w =
     (case on_connect leader of
        ConnectRaises c \<Rightarrow>
          Some (record_motion_finally leader output fps Exception [] (w\<lparr>leader_connected := c\<rparr>))
      | ConnectOk \<Rightarrow>
          (case record_loop fps [] script of
             None \<Rightarrow> None
           | Some (r, frames) \<Rightarrow>
               Some (record_motion_finally leader output fps r frames
                       (w\<lparr>leader_connected := True\<rparr>))))"

text \<open>\<open>record_with_teleop.main\<close>: two devices, connected and disconnected in turn.\<close>

definition record_with_teleop_finally ::
  "device \<Rightarrow> device \<Rightarrow> string \<Rightarrow> int \<Rightarrow> raised \<Rightarrow> timed_frame list \<Rightarrow> world
     \<Rightarrow> outcome \<times> world" where
  "record_with_teleop_finally leader follower output fps r frames w =
     (if leader_connected w \<and> disconnect_raises leader then (Propagated, w)
      else
        (let w1 = (if leader_connected w
                   then w\<lparr>leader_connected := False,
                          trace := trace w @ [Disconnected ''leader'']\<rparr>
                   else w)
         in if follower_connected w1 \<and> disconnect_raises follower then (Propagated, w1)
            else
              (let w2 = (if follower_connected w1
                         then w1\<lparr>follower_connected := False,
                                 trace := trace w1 @ [Disconnected ''follower'']\<rparr>
                         else w1)
               in (after_handlers r, save_if_any frames output fps w2))))"

definition record_with_teleop_main ::
  "device \<Rightarrow> device \<Rightarrow> string \<Rightarrow> int \<Rightarrow> loop_event list \<Rightarrow> world
     \<Rightarrow> (outcome \<times> world) option" where
  "record_with_teleop_main leader follower output fps script w =
     (case on_connect leader of
        ConnectRaises c \<Rightarrow>
          Some (record_with_teleop_finally leader follower output fps Exception []
                  (w\<lparr>leader_connected := c\<rparr>))
      | ConnectOk \<Rightarrow>
          (case on_connect follower of
             ConnectRaises c \<Rightarrow>
               Some (record_with_teleop_finally leader follower output fps Exception []
                       (w\<lparr>leader_connected := True, follower_connected := c\<rparr>))
           | ConnectOk \<Rightarrow>
               (case record_loop fps [] script of
                  None \<Rightarrow> None
                | Some (r, frames) \<Rightarrow>
                    Some (record_with_teleop_finally leader follower output fps r frames
                            (w\<lparr>leader_connected := True, follower_connected := True\<rparr>)))))"

section \<open>\<open>replay_all.py\<close> and \<open>select_and_replay.py\<close>: the order of the files\<close>

text \<open>
  File names are ASCII strings. \<open>re.match(r'conf(\d+)', filename)\<close> asks for the
  prefix followed by at least one digit and captures the longest run of digits;
  \<open>int\<close> reads it in base ten.
\<close>

definition is_digit :: "char \<Rightarrow> bool" where
  "is_digit c = (CHR ''0'' \<le> c \<and> c \<le> CHR ''9'')"

definition int_of_digits :: "string \<Rightarrow> nat" where
  "int_of_digits ds = foldl (\<lambda>n c. 10 * n + (of_char c - of_char (CHR ''0''))) 0 ds"

definition re_match_number :: "string \<Rightarrow> string \<Rightarrow> nat option" where
  "re_match_number pre filename =
     (if take (length pre) filename = pre
      then (let ds = takeWhile is_digit (drop (length pre) filename)
            in if ds = [] then None else Some (int_of_digits ds))
      else None)"

text \<open>
  \<open>re.match(r"(?:anx|conf)\d+$", name)\<close>: one of the two prefixes, digits, and then
  the end of the name (\<open>$\<close> also matches before one final newline).
\<close>

definition digits_to_end :: "string \<Rightarrow> bool" where
  "digits_to_end s =
     (takeWhile is_digit s \<noteq> [] \<and>
      (dropWhile is_digit s = [] \<or> dropWhile is_digit s = [CHR 0x0A]))"

definition re_match_recording_name :: "string \<Rightarrow> bool" where
  "re_match_recording_name name =
     ((take 3 name = ''anx'' \<and> digits_to_end (drop 3 name)) \<or>
      (take 4 name = ''conf'' \<and> digits_to_end (drop 4 name)))"

text \<open>
  \<open>Path.suffix\<close> and \<open>Path.stem\<close> of a file name: the suffix starts at the last dot
  when that dot is neither the first nor the last character.
\<close>

definition path_suffix :: "string \<Rightarrow> string" where
  "path_suffix name =
     (let ext = rev (takeWhile (\<lambda>c. c \<noteq> CHR ''.'') (rev name))
      in if CHR ''.'' \<in> set name \<and> length ext + 1 < length name \<and> ext \<noteq> []
         then CHR ''.'' # ext else [])"

definition path_stem :: "string \<Rightarrow> string" where
  "path_stem name = take (length name - length (path_suffix name)) name"

text \<open>
  The body of \<open>sort_key\<close> once \<open>filename\<close> is known. Python returns \<open>(0, num)\<close>,
  \<open>(1, num)\<close> or \<open>(2, filename)\<close> and compares these tuples lexicographically; two keys
  of different groups are decided by the group, so the triple below, with the unused
  component fixed, is ordered the same way.
\<close>

definition sort_key_of :: "string \<Rightarrow> nat \<times> nat \<times> string" where
  "sort_key_of filename =
     (case re_match_number ''conf'' filename of
        Some num \<Rightarrow> (0, num, [])
      | None \<Rightarrow>
          (case re_match_number ''anx'' filename of
             Some num \<Rightarrow> (1, num, [])
           | None \<Rightarrow> (2, 0, filename)))"

text \<open>
  \<open>replay_all.find_pkl_files\<close>: the names of the directory that match \<open>*.pkl\<close>, sorted
  (stably, as \<open>list.sort\<close> does) by the key of their stem.
\<close>

definition glob_pkl :: "string \<Rightarrow> bool" where
  "glob_pkl name = (4 \<le> length name \<and> drop (length name - 4) name = ''.pkl'')"

definition replay_all_sort_key :: "string \<Rightarrow> nat \<times> nat \<times> string" where
  "replay_all_sort_key name = sort_key_of (path_stem name)"

definition replay_all_find_pkl_files :: "string list \<Rightarrow> string list" where
  "replay_all_find_pkl_files names = sort_key replay_all_sort_key (filter glob_pkl names)"

text \<open>
  \<open>select_and_replay.find_pkl_files\<close>: the regular files of the directory whose suffix
  is \<open>.pkl\<close> or whose whole name is a recording name, sorted by the key of the stem, or
  of the whole name when there is no \<open>.pkl\<close> suffix.
\<close>

record dir_entry =
  entry_name :: string
  is_file :: bool

definition select_filename :: "string \<Rightarrow> string" where
  "select_filename name = (if path_suffix name = ''.pkl'' then path_stem name else name)"

definition select_sort_key :: "string \<Rightarrow> nat \<times> nat \<times> string" where
  "select_sort_key name = sort_key_of (select_filename name)"

definition select_find_pkl_files :: "dir_entry list \<Rightarrow> string list" where
  "select_find_pkl_files entries =
     sort_key select_sort_key
       (map entry_name
          (filter (\<lambda>e. is_file e \<and>
                       (path_suffix (entry_name e) = ''.pkl'' \<or>
                        re_match_recording_name (entry_name e)))
             entries))"

section \<open>\<open>replay_motion.py\<close> and \<open>replay_all.py\<close>: the motion player\<close>

definition required_keys :: "string list" where
  "required_keys = [''fps'', ''frames'', ''num_frames'']"

text \<open>The validation loop: the first required key that is not in the dictionary.\<close>

fun first_missing :: "pydict \<Rightarrow> string list \<Rightarrow> string option" where
  "first_missing data [] = None"
| "first_missing data (key # keys) =
     (if data key = None then Some key else first_missing data keys)"

text \<open>
  The summary that \<open>replay_motion.load_recording\<close> prints after the validation formats
  the duration with \<open>:.2f\<close> and joins the motor names; both raise \<open>TypeError\<close> on a
  value of another type.
\<close>

definition printable_duration :: "pydict \<Rightarrow> bool" where
  "printable_duration data =
     (case data ''duration'' of
        None \<Rightarrow> True | Some (PInt _) \<Rightarrow> True | Some (PFloat _) \<Rightarrow> True | Some _ \<Rightarrow> False)"

definition joinable_names :: "pydict \<Rightarrow> bool" where
  "joinable_names data =
     (case data ''motor_names'' of
        None \<Rightarrow> True | Some (PNames _) \<Rightarrow> True | Some (PFrames []) \<Rightarrow> True | Some _ \<Rightarrow> False)"

definition replay_motion_load_recording :: "filesystem \<Rightarrow> string \<Rightarrow> py_error + pydict" where
  "replay_motion_load_recording fs input_path =
     (case fs input_path of
        None \<Rightarrow> Inl FileNotFoundError
      | Some Garbage \<Rightarrow> Inl UnpicklingError
      | Some (Pickled data) \<Rightarrow>
          (case first_missing data required_keys of
             Some key \<Rightarrow> Inl (ValueError key)
           | None \<Rightarrow>
               (if printable_duration data \<and> joinable_names data then Inr data
                else Inl TypeError)))"

text \<open>
  \<open>replay_all.load_recording\<close> returns \<open>None\<close> for a missing key and also for every
  exception of \<open>open\<close> and \<open>pickle.load\<close>.
\<close>

definition replay_all_load_recording :: "filesystem \<Rightarrow> string \<Rightarrow> pydict option" where
  "replay_all_load_recording fs pkl_file =
     (case fs pkl_file of
        None \<Rightarrow> None
      | Some Garbage \<Rightarrow> None
      | Some (Pickled data) \<Rightarrow>
          (case first_missing data required_keys of
             Some key \<Rightarrow> None
           | None \<Rightarrow> Some data))"

text \<open>
  The frame loop that both players share: send the action, then evaluate
  \<open>(idx + 1) % fps\<close>, which raises for a zero rate and for a rate that is no number.
  The result is the world and the exception that ended the loop, if any. The
  asynchronous user interrupt is not part of the player model.
\<close>

definition modulo_error :: "pyval \<Rightarrow> py_error option" where
  "modulo_error fps =
     (case fps of
        PInt n \<Rightarrow> (if n = 0 then Some ZeroDivisionError else None)
      | PFloat r \<Rightarrow> (if r = 0 then Some ZeroDivisionError else None)
      | _ \<Rightarrow> Some TypeError)"

fun send_frames ::
  "(action \<Rightarrow> bool) \<Rightarrow> pyval \<Rightarrow> timed_frame list \<Rightarrow> world \<Rightarrow> world \<times> py_error option" where
  "send_frames acc fps [] w = (w, None)"
| "send_frames acc fps (f # fs) w =
     (if \<not> acc (frame_action f) then (w, Some DeviceError)
      else
        (let w1 = w\<lparr>trace := trace w @ [Sent (frame_action f)]\<rparr>
         in case modulo_error fps of
              Some e \<Rightarrow> (w1, Some e)
            | None \<Rightarrow> send_frames acc fps fs w1))"

definition replay_frames ::
  "(action \<Rightarrow> bool) \<Rightarrow> pyval \<Rightarrow> pyval \<Rightarrow> world \<Rightarrow> world \<times> py_error option" where
  "replay_frames acc fps frames w =
     (case frames of
        PFrames fs \<Rightarrow> send_frames acc fps fs w
      | PNames [] \<Rightarrow> (w, None)
      | _ \<Rightarrow> (w, Some TypeError))"

text \<open>
  \<open>replay_all.replay_recording\<close>: the summary line is printed outside the \<open>try\<close>, the
  frame loop runs inside it and its exceptions only make the result \<open>False\<close>.
\<close>

definition replay_recording :: "device \<Rightarrow> pydict \<Rightarrow> world \<Rightarrow> py_error + (world \<times> bool)" where
  "replay_recording follower recording w =
     (case recording ''fps'' of
        None \<Rightarrow> Inl KeyError
      | Some fps \<Rightarrow>
          (case recording ''frames'' of
             None \<Rightarrow> Inl KeyError
           | Some frames \<Rightarrow>
               (if recording ''num_frames'' = None then Inl KeyError
                else if \<not> printable_duration recording then Inl TypeError
                else
                  (case replay_frames (accepts follower) fps frames w of
                     (w1, None) \<Rightarrow> Inr (w1, True)
                   | (w1, Some e) \<Rightarrow> Inr (w1, False)))))"

text \<open>
  The loop \<open>for idx, pkl_file in enumerate(pkl_files, 1)\<close> of \<open>replay_all.main\<close>:
  a file that does not load is skipped by \<open>continue\<close>.
\<close>

fun replay_files ::
  "device \<Rightarrow> bool \<Rightarrow> nat \<Rightarrow> nat \<Rightarrow> string list \<Rightarrow> world \<Rightarrow> world \<times> py_error option" where
  "replay_files follower loop n_files idx [] w = (w, None)"
| "replay_files follower loop n_files idx (pkl_file # rest) w =
     (case replay_all_load_recording (files w) pkl_file of
        None \<Rightarrow>
          replay_files follower loop n_files (idx + 1) rest
            (w\<lparr>trace := trace w @ [Skipped pkl_file]\<rparr>)
      | Some recording \<Rightarrow>
          (case replay_recording follower recording w of
             Inl e \<Rightarrow> (w, Some e)
           | Inr (w1, success) \<Rightarrow>
               replay_files follower loop n_files (idx + 1) rest
                 (if idx < n_files \<or> loop then w1\<lparr>trace := trace w1 @ [Paused]\<rparr> else w1)))"

text \<open>
  The outer \<open>while True\<close> of \<open>replay_all.main\<close>. With \<open>--loop\<close> it never ends by itself;
  the fuel counts the cycles that are run, and \<open>None\<close> says that the loop is still
  running when the fuel is used up.
\<close>

fun replay_cycles ::
  "nat \<Rightarrow> device \<Rightarrow> bool \<Rightarrow> string list \<Rightarrow> world \<Rightarrow> (world \<times> py_error option) option" where
  "replay_cycles 0 follower loop pkl_files w = None"
| "replay_cycles (Suc n) follower loop pkl_files w =
     (case replay_files follower loop (length pkl_files) 1 pkl_files w of
        (w1, Some e) \<Rightarrow> Some (w1, Some e)
      | (w1, None) \<Rightarrow>
          (if \<not> loop then Some (w1, None) else replay_cycles n follower loop pkl_files w1))"

definition replay_finally :: "device \<Rightarrow> py_error option \<Rightarrow> world \<Rightarrow> outcome \<times> world" where
  "replay_finally follower err w =
     (if follower_connected w
      then
        (if disconnect_raises follower then (Propagated, w)
         else ((case err of None \<Rightarrow> Returned | Some e \<Rightarrow> Propagated),
               w\<lparr>follower_connected := False,
                 trace := trace w @ [Disconnected ''follower'']\<rparr>))
      else ((case err of None \<Rightarrow> Returned | Some e \<Rightarrow> Propagated), w))"

definition replay_all_main ::
  "nat \<Rightarrow> device \<Rightarrow> bool \<Rightarrow> string list \<Rightarrow> world \<Rightarrow> (outcome \<times> world) option" where
  "replay_all_main fuel follower loop names w =
     (let pkl_files = replay_all_find_pkl_files names
      in if pkl_files = [] then Some (Returned, w)
         else
           (case on_connect follower of
              ConnectRaises c \<Rightarrow>
                Some (replay_finally follower (Some DeviceError) (w\<lparr>follower_connected := c\<rparr>))
            | ConnectOk \<Rightarrow>
                (case replay_cycles fuel follower loop pkl_files
                        (w\<lparr>follower_connected := True\<rparr>) of
                   None \<Rightarrow> None
                 | Some (w1, err) \<Rightarrow> Some (replay_finally follower err w1))))"

text \<open>
  \<open>replay_motion.main\<close>: every exception of \<open>load_recording\<close> is reported and \<open>main\<close>
  returns before the follower is created.
\<close>

fun replay_iterations ::
  "nat \<Rightarrow> device \<Rightarrow> bool \<Rightarrow> pydict \<Rightarrow> world \<Rightarrow> (world \<times> py_error option) option" where
  "replay_iterations 0 follower loop recording w = None"
| "replay_iterations (Suc n) follower loop recording w =
     (case recording ''fps'' of
        None \<Rightarrow> Some (w, Some KeyError)
      | Some fps \<Rightarrow>
          (case recording ''frames'' of
             None \<Rightarrow> Some (w, Some KeyError)
           | Some frames \<Rightarrow>
               (case replay_frames (accepts follower) fps frames w of
                  (w1, Some e) \<Rightarrow> Some (w1, Some e)
                | (w1, None) \<Rightarrow>
                    (if \<not> loop then Some (w1, None)
                     else replay_iterations n follower loop recording
                            (w1\<lparr>trace := trace w1 @ [Paused]\<rparr>)))))"

definition replay_motion_main ::
  "nat \<Rightarrow> device \<Rightarrow> string \<Rightarrow> bool \<Rightarrow> world \<Rightarrow> (outcome \<times> world) option" where
  "replay_motion_main fuel follower input loop w =
     (case replay_motion_load_recording (files w) input of
        Inl e \<Rightarrow> Some (Returned, w\<lparr>trace := trace w @ [ErrorLoading e]\<rparr>)
      | Inr recording \<Rightarrow>
          (case on_connect follower of
             ConnectRaises c \<Rightarrow>
               Some (replay_finally follower (Some DeviceError) (w\<lparr>follower_connected := c\<rparr>))
           | ConnectOk \<Rightarrow>
               (case replay_iterations fuel follower loop recording
                       (w\<lparr>follower_connected := True\<rparr>) of
                  None \<Rightarrow> None
                | Some (w1, err) \<Rightarrow> Some (replay_finally follower err w1))))"

section \<open>Python floats where the rounding matters\<close>







section \<open>Reference notions of the specification\<close>

text \<open>
  What a FIFO bounded to \<open>n\<close> entries holds after the values \<open>xs\<close> were pushed in
  order, the oldest being evicted when it is full: the last \<open>n\<close> of them. This is the
  specification's notion; the theorems below compare the filter's history with it.
\<close>

definition fifo_contents :: "nat \<Rightarrow> 'a list \<Rightarrow> 'a list" where
  "fifo_contents n xs = drop (length xs - n) xs"

text \<open>
  The arithmetic mean of what a FIFO bounded to \<open>n\<close> entries holds after the values
  \<open>xs\<close> were pushed.
\<close>

definition window_mean :: "nat \<Rightarrow> real list \<Rightarrow> real" where
  "window_mean n xs = sum_list (fifo_contents n xs) / real (length (fifo_contents n xs))"

text \<open>
  The absolute changes of the elbow position from each frame of a sequence to the next:
  what the specification calls the delta history, before it is bounded.
\<close>

definition elbow_changes :: "frame list \<Rightarrow> real list" where
  "elbow_changes frames =
     map (\<lambda>j. \<bar>the ((frames ! Suc j) elbow_key) - the ((frames ! j) elbow_key)\<bar>)
       [0..<length frames - 1]"

text \<open>
  The order of the specification on file names (without the \<open>.pkl\<close> extension): \<open>a\<close>
  may come before \<open>b\<close> when \<open>b\<close> is of the first family and \<open>a\<close> is too, with a
  number that is not greater; or \<open>b\<close> is of the second family and \<open>a\<close> is of the first,
  or of the second with a number that is not greater; or \<open>b\<close> is of neither family and
  \<open>a\<close> is of one of them or is lexically not greater. A name is of a family when the
  source's pattern for that family matches it.
\<close>

definition may_precede :: "string \<Rightarrow> string \<Rightarrow> bool" where
  "may_precede a b =
     (case re_match_number ''conf'' b of
        Some nb \<Rightarrow>
          (case re_match_number ''conf'' a of Some na \<Rightarrow> na \<le> nb | None \<Rightarrow> False)
      | None \<Rightarrow>
          (case re_match_number ''anx'' b of
             Some nb \<Rightarrow>
               (re_match_number ''conf'' a \<noteq> None
                \<or> (case re_match_number ''anx'' a of Some na \<Rightarrow> na \<le> nb | None \<Rightarrow> False))
           | None \<Rightarrow>
               (re_match_number ''conf'' a \<noteq> None \<or> re_match_number ''anx'' a \<noteq> None
                \<or> a \<le> b)))"

section \<open>The wrist roll filter: the bounded history and a run\<close>

lemma fifo_contents_length: "length (fifo_contents n xs) \<le> n"
  by (simp add: fifo_contents_def)

lemma fifo_contents_push:
  "fifo_contents n (fifo_contents n ys @ zs) = fifo_contents n (ys @ zs)"
  by (cases "length ys \<le> n") (simp_all add: fifo_contents_def add.commute)

lemma fifo_contents_short: "length xs \<le> n \<Longrightarrow> fifo_contents n xs = xs"
  by (simp add: fifo_contents_def)

lemma pop_oldest_fifo:
  assumes "int (length h) \<le> w"
  shows "(if int (length (h @ [x])) > w then tl (h @ [x]) else h @ [x])
           = fifo_contents (nat w) (h @ [x])"
proof (cases "int (length (h @ [x])) > w")
  case True
  with assms have "length (h @ [x]) - nat w = Suc 0" by simp
  then have "drop (length (h @ [x]) - nat w) (h @ [x]) = tl (h @ [x])"
    by (simp only: drop_Suc drop_0)
  then show ?thesis using True by (simp only: fifo_contents_def if_True)
next
  case False
  then have "length (h @ [x]) - nat w = 0" by simp
  then show ?thesis using False by (simp add: fifo_contents_def del: length_append)
qed

lemma moving_average_stage_fifo:
  assumes "filter_type (config self) = MOVING_AVERAGE \<or> filter_type (config self) = COMBINED"
    and "1 \<le> moving_average_window (config self)"
    and "int (length (wrist_roll_history self)) \<le> moving_average_window (config self)"
  shows "moving_average_stage self v =
     Inr (self\<lparr>wrist_roll_history :=
                 fifo_contents (nat (moving_average_window (config self)))
                   (wrist_roll_history self @ [v])\<rparr>,
          window_mean (nat (moving_average_window (config self)))
            (wrist_roll_history self @ [v]))"
proof -
  have ne: "fifo_contents (nat (moving_average_window (config self)))
              (wrist_roll_history self @ [v]) \<noteq> []"
    using assms(2) by (simp add: fifo_contents_def)
  show ?thesis
    using assms(1) ne pop_oldest_fifo [OF assms(3), of v]
    by (auto simp add: moving_average_stage_def Let_def window_mean_def simp del: length_append)
qed

lemma deadzone_stage_config:
  "config s = config t \<Longrightarrow> deadzone_stage s x = deadzone_stage t x"
  by (simp add: deadzone_stage_def)

text \<open>
  One tick in a mode that runs the gripper linked block, and a run of such ticks from a
  state that holds both previous values.
\<close>

lemma gripper_tick:
  assumes "filter_type (config self) = GRIPPER_LINKED \<or> filter_type (config self) = COMBINED"
    and "moving_average_stage self (deadzone_stage self x) = Inr (self1, m)"
    and "prev_gripper_value self1 = prev_gripper_value self"
    and "prev_wrist_roll_value self1 = prev_wrist_roll_value self"
    and "config self1 = config self"
    and "a wrist_roll_key = Some x" and "a gripper_key = Some g"
  shows "WristRollFilter_apply_filter self a =
     Inr (self1\<lparr>prev_gripper_value := Some g,
               prev_wrist_roll_value := Some
                 (case prev_gripper_value self of None \<Rightarrow> m
                  | Some pg \<Rightarrow> (case prev_wrist_roll_value self of None \<Rightarrow> m
                      | Some pw \<Rightarrow> if \<bar>g - pg\<bar> > gripper_change_threshold (config self)
                                   then pw else m))\<rparr>,
          a(wrist_roll_key \<mapsto>
                 (case prev_gripper_value self of None \<Rightarrow> m
                  | Some pg \<Rightarrow> (case prev_wrist_roll_value self of None \<Rightarrow> m
                      | Some pw \<Rightarrow> if \<bar>g - pg\<bar> > gripper_change_threshold (config self)
                                   then pw else m))))"
  using assms
  by (auto simp add: WristRollFilter_apply_filter_def gripper_linked_stage_def Let_def
      split: option.splits)

lemma gripper_run:
  assumes "filter_type (config self) = GRIPPER_LINKED \<or> filter_type (config self) = COMBINED"
    and "filter_type (config self) = COMBINED \<Longrightarrow>
           1 \<le> moving_average_window (config self)
           \<and> int (length (wrist_roll_history self)) \<le> moving_average_window (config self)"
    and "\<forall>a\<in>set frames. a wrist_roll_key \<noteq> None \<and> a gripper_key \<noteq> None"
    and "prev_gripper_value self = Some pg"
    and "prev_wrist_roll_value self = Some po"
  shows "\<exists>self' outs. run_wrist_filter self frames = Inr (self', outs)
      \<and> length outs = length frames
      \<and> config self' = config self
      \<and> prev_gripper_value self' = (if frames = [] then Some pg else (last frames) gripper_key)
      \<and> wrist_roll_history self' =
           (if filter_type (config self) = COMBINED
            then fifo_contents (nat (moving_average_window (config self)))
                   (wrist_roll_history self
                      @ map (\<lambda>a. deadzone_stage self (the (a wrist_roll_key))) frames)
            else wrist_roll_history self)
      \<and> (\<forall>i<length frames. (outs ! i) wrist_roll_key =
            (if \<bar>the ((frames ! i) gripper_key)
                  - (if i = 0 then pg else the ((frames ! (i - 1)) gripper_key))\<bar>
                 > gripper_change_threshold (config self)
             then (if i = 0 then Some po else (outs ! (i - 1)) wrist_roll_key)
             else Some
               (if filter_type (config self) = COMBINED
                then window_mean (nat (moving_average_window (config self)))
                       (wrist_roll_history self
                          @ map (\<lambda>a. deadzone_stage self (the (a wrist_roll_key)))
                              (take (Suc i) frames))
                else the ((frames ! i) wrist_roll_key))))"
  using assms
proof (induction frames arbitrary: self pg po)
  case Nil
  have "fifo_contents (nat (moving_average_window (config self))) (wrist_roll_history self)
          = wrist_roll_history self" if "filter_type (config self) = COMBINED"
    using Nil.prems(2) [OF that] by (intro fifo_contents_short) linarith
  then show ?case using Nil.prems(4) by simp
next
  case (Cons a rest)
  let ?n = "nat (moving_average_window (config self))"
  let ?h = "wrist_roll_history self"
  let ?C = "filter_type (config self) = COMBINED"
  from Cons.prems(3) obtain x g where x: "a wrist_roll_key = Some x" and g: "a gripper_key = Some g"
    by auto
  define d where "d = deadzone_stage self x"
  define h1 where "h1 = (if ?C then fifo_contents ?n (?h @ [d]) else ?h)"
  define m where "m = (if ?C then window_mean ?n (?h @ [d]) else x)"
  define out where "out = (if \<bar>g - pg\<bar> > gripper_change_threshold (config self) then po else m)"
  define self1 where "self1 = self\<lparr>wrist_roll_history := h1, prev_gripper_value := Some g,
      prev_wrist_roll_value := Some out\<rparr>"
  have stage: "moving_average_stage self (deadzone_stage self x)
                 = Inr (self\<lparr>wrist_roll_history := h1\<rparr>, m)"
  proof (cases ?C)
    case True
    then show ?thesis
      using moving_average_stage_fifo [of self d] Cons.prems(2)
      by (simp add: h1_def m_def d_def)
  next
    case False
    with Cons.prems(1) have gl: "filter_type (config self) = GRIPPER_LINKED" by simp
    then show ?thesis
      by (simp add: moving_average_stage_def deadzone_stage_def h1_def m_def)
  qed
  have step: "WristRollFilter_apply_filter self a = Inr (self1, a(wrist_roll_key \<mapsto> out))"
    using gripper_tick [OF Cons.prems(1) stage _ _ _ x g] Cons.prems(4,5)
    by (simp add: self1_def out_def)
  have c1: "config self1 = config self" by (simp add: self1_def)
  have f1: "filter_type (config self1) = GRIPPER_LINKED \<or> filter_type (config self1) = COMBINED"
    using Cons.prems(1) by (simp add: c1)
  have w1: "filter_type (config self1) = COMBINED \<Longrightarrow>
           1 \<le> moving_average_window (config self1)
           \<and> int (length (wrist_roll_history self1)) \<le> moving_average_window (config self1)"
    using Cons.prems(2) fifo_contents_length [of ?n "?h @ [d]"]
    by (simp add: self1_def h1_def) linarith
  have k1: "\<forall>a\<in>set rest. a wrist_roll_key \<noteq> None \<and> a gripper_key \<noteq> None"
    using Cons.prems(3) by simp
  have p1: "prev_gripper_value self1 = Some g" "prev_wrist_roll_value self1 = Some out"
    by (simp_all add: self1_def)
  have dz: "deadzone_stage self1 = deadzone_stage self"
    by (rule ext) (simp add: deadzone_stage_config [OF c1])
  have hs: "wrist_roll_history self1 = h1" by (simp add: self1_def)
  from Cons.IH [OF f1 w1 k1 p1] obtain self' outs where
    run: "run_wrist_filter self1 rest = Inr (self', outs)"
    and len: "length outs = length rest"
    and cfg: "config self' = config self"
    and pgv: "prev_gripper_value self' = (if rest = [] then Some g else (last rest) gripper_key)"
    and hist: "wrist_roll_history self' =
           (if ?C
            then fifo_contents ?n (h1 @ map (\<lambda>a. deadzone_stage self (the (a wrist_roll_key))) rest)
            else h1)"
    and ih: "\<forall>i<length rest. (outs ! i) wrist_roll_key =
            (if \<bar>the ((rest ! i) gripper_key)
                  - (if i = 0 then g else the ((rest ! (i - 1)) gripper_key))\<bar>
                 > gripper_change_threshold (config self)
             then (if i = 0 then Some out else (outs ! (i - 1)) wrist_roll_key)
             else Some
               (if ?C
                then window_mean ?n
                       (h1 @ map (\<lambda>a. deadzone_stage self (the (a wrist_roll_key)))
                              (take (Suc i) rest))
                else the ((rest ! i) wrist_roll_key)))"
    unfolding c1 dz hs by blast
  have push: "fifo_contents ?n (h1 @ zs) = fifo_contents ?n (?h @ d # zs)" if ?C for zs
    using fifo_contents_push [of ?n "?h @ [d]" zs] that by (simp add: h1_def)
  have pushm: "window_mean ?n (h1 @ zs) = window_mean ?n (?h @ d # zs)" if ?C for zs
    using push [OF that, of zs] by (simp add: window_mean_def)
  have r: "run_wrist_filter self (a # rest) = Inr (self', a(wrist_roll_key \<mapsto> out) # outs)"
    using step run by simp
  have idx: "((a(wrist_roll_key \<mapsto> out) # outs) ! i) wrist_roll_key =
            (if \<bar>the (((a # rest) ! i) gripper_key)
                  - (if i = 0 then pg else the (((a # rest) ! (i - 1)) gripper_key))\<bar>
                 > gripper_change_threshold (config self)
             then (if i = 0 then Some po
                   else ((a(wrist_roll_key \<mapsto> out) # outs) ! (i - 1)) wrist_roll_key)
             else Some
               (if ?C
                then window_mean ?n
                       (?h @ map (\<lambda>a. deadzone_stage self (the (a wrist_roll_key)))
                              (take (Suc i) (a # rest)))
                else the (((a # rest) ! i) wrist_roll_key)))" if "i < length (a # rest)" for i
  proof (cases i)
    case 0
    then show ?thesis using x g by (simp add: out_def m_def d_def)
  next
    case (Suc j)
    then have "j < length rest" using that by simp
    from ih [rule_format, OF this] show ?thesis
      using Suc g x by (cases j) (simp_all add: pushm d_def)
  qed
  have hist': "wrist_roll_history self' =
           (if ?C
            then fifo_contents ?n
                   (?h @ map (\<lambda>a. deadzone_stage self (the (a wrist_roll_key))) (a # rest))
            else ?h)"
    using hist x by (simp add: push d_def) (simp add: h1_def)
  show ?case
    using r len cfg pgv idx g hist'
    by (intro exI [of _ self'] exI [of _ "a(wrist_roll_key \<mapsto> out) # outs"]) simp
qed

text \<open>The same run from the initial state, where the first tick cannot freeze.\<close>

lemma gripper_run_init:
  assumes "filter_type cfg = GRIPPER_LINKED \<or> filter_type cfg = COMBINED"
    and "filter_type cfg = COMBINED \<Longrightarrow> 1 \<le> moving_average_window cfg"
    and "\<forall>a\<in>set frames. a wrist_roll_key \<noteq> None \<and> a gripper_key \<noteq> None"
  shows "\<exists>self' outs. run_wrist_filter (WristRollFilter_init cfg) frames = Inr (self', outs)
      \<and> length outs = length frames
      \<and> (frames \<noteq> [] \<longrightarrow> prev_gripper_value self' = (last frames) gripper_key)
      \<and> wrist_roll_history self' =
           (if filter_type cfg = COMBINED
            then fifo_contents (nat (moving_average_window cfg))
                   (map (\<lambda>a. deadzone_stage (WristRollFilter_init cfg) (the (a wrist_roll_key)))
                      frames)
            else [])
      \<and> (\<forall>i<length frames. (outs ! i) wrist_roll_key =
            (if 0 < i \<and> \<bar>the ((frames ! i) gripper_key) - the ((frames ! (i - 1)) gripper_key)\<bar>
                 > gripper_change_threshold cfg
             then (outs ! (i - 1)) wrist_roll_key
             else Some
               (if filter_type cfg = COMBINED
                then window_mean (nat (moving_average_window cfg))
                       (map (\<lambda>a. deadzone_stage (WristRollFilter_init cfg)
                                    (the (a wrist_roll_key)))
                          (take (Suc i) frames))
                else the ((frames ! i) wrist_roll_key))))"
proof (cases frames)
  case Nil
  then show ?thesis by (simp add: WristRollFilter_init_def fifo_contents_def)
next
  case (Cons a rest)
  let ?s = "WristRollFilter_init cfg"
  let ?n = "nat (moving_average_window cfg)"
  let ?C = "filter_type cfg = COMBINED"
  let ?dz = "\<lambda>a. deadzone_stage ?s (the (a wrist_roll_key))"
  have c0: "config ?s = cfg" "wrist_roll_history ?s = []" "prev_gripper_value ?s = None"
    "prev_wrist_roll_value ?s = None"
    by (simp_all add: WristRollFilter_init_def)
  from assms(3) Cons obtain x g where x: "a wrist_roll_key = Some x" and g: "a gripper_key = Some g"
    by auto
  define d where "d = deadzone_stage ?s x"
  define h1 where "h1 = (if ?C then [d] else [])"
  define m where "m = (if ?C then d else x)"
  define self1 where "self1 = ?s\<lparr>wrist_roll_history := h1, prev_gripper_value := Some g,
      prev_wrist_roll_value := Some m\<rparr>"
  have one: "fifo_contents ?n [d] = [d]" if ?C
    using assms(2) [OF that] by (intro fifo_contents_short) simp
  have stage: "moving_average_stage ?s (deadzone_stage ?s x)
                 = Inr (?s\<lparr>wrist_roll_history := h1\<rparr>, m)"
  proof (cases ?C)
    case True
    then show ?thesis
      using moving_average_stage_fifo [of ?s d] assms(2) one
      by (simp add: h1_def m_def d_def c0 window_mean_def)
  next
    case False
    with assms(1) have gl: "filter_type cfg = GRIPPER_LINKED" by simp
    then show ?thesis
      by (simp add: moving_average_stage_def deadzone_stage_def h1_def m_def c0)
  qed
  have ft0: "filter_type (config ?s) = GRIPPER_LINKED \<or> filter_type (config ?s) = COMBINED"
    using assms(1) by (simp add: c0)
  have step: "WristRollFilter_apply_filter ?s a = Inr (self1, a(wrist_roll_key \<mapsto> m))"
    using gripper_tick [OF ft0 stage _ _ _ x g] by (simp add: self1_def c0)
  have c1: "config self1 = cfg" by (simp add: self1_def c0)
  have f1: "filter_type (config self1) = GRIPPER_LINKED \<or> filter_type (config self1) = COMBINED"
    using assms(1) by (simp add: c1)
  have w1: "filter_type (config self1) = COMBINED \<Longrightarrow>
           1 \<le> moving_average_window (config self1)
           \<and> int (length (wrist_roll_history self1)) \<le> moving_average_window (config self1)"
    using assms(2) by (simp add: self1_def h1_def c0)
  have k1: "\<forall>a\<in>set rest. a wrist_roll_key \<noteq> None \<and> a gripper_key \<noteq> None"
    using assms(3) Cons by simp
  have p1: "prev_gripper_value self1 = Some g" "prev_wrist_roll_value self1 = Some m"
    by (simp_all add: self1_def)
  have dz: "deadzone_stage self1 = deadzone_stage ?s"
    by (rule ext) (simp add: deadzone_stage_config [of self1 ?s] c1 c0)
  have hs: "wrist_roll_history self1 = h1" by (simp add: self1_def)
  from gripper_run [OF f1 w1 k1 p1] obtain self' outs where
    run: "run_wrist_filter self1 rest = Inr (self', outs)"
    and len: "length outs = length rest"
    and pgv: "prev_gripper_value self' = (if rest = [] then Some g else (last rest) gripper_key)"
    and hist: "wrist_roll_history self' =
           (if ?C then fifo_contents ?n (h1 @ map ?dz rest) else h1)"
    and ih: "\<forall>i<length rest. (outs ! i) wrist_roll_key =
            (if \<bar>the ((rest ! i) gripper_key)
                  - (if i = 0 then g else the ((rest ! (i - 1)) gripper_key))\<bar>
                 > gripper_change_threshold cfg
             then (if i = 0 then Some m else (outs ! (i - 1)) wrist_roll_key)
             else Some
               (if ?C
                then window_mean ?n (h1 @ map ?dz (take (Suc i) rest))
                else the ((rest ! i) wrist_roll_key)))"
    unfolding c1 dz hs by blast
  have r: "run_wrist_filter ?s (a # rest) = Inr (self', a(wrist_roll_key \<mapsto> m) # outs)"
    using step run by simp
  have m0: "Some m = Some (if ?C then window_mean ?n [d] else x)"
    using one by (simp add: m_def window_mean_def)
  have idx: "((a(wrist_roll_key \<mapsto> m) # outs) ! i) wrist_roll_key =
            (if 0 < i \<and> \<bar>the (((a # rest) ! i) gripper_key)
                        - the (((a # rest) ! (i - 1)) gripper_key)\<bar>
                 > gripper_change_threshold cfg
             then ((a(wrist_roll_key \<mapsto> m) # outs) ! (i - 1)) wrist_roll_key
             else Some
               (if ?C
                then window_mean ?n (map ?dz (take (Suc i) (a # rest)))
                else the (((a # rest) ! i) wrist_roll_key)))" if "i < length (a # rest)" for i
  proof (cases i)
    case 0
    then show ?thesis using x m0 by (simp add: d_def)
  next
    case (Suc j)
    then have "j < length rest" using that by simp
    from ih [rule_format, OF this] show ?thesis
      using Suc g x by (cases j) (simp_all add: h1_def d_def)
  qed
  have hist': "wrist_roll_history self' =
           (if ?C then fifo_contents ?n (map ?dz (a # rest)) else [])"
    using hist x by (simp add: h1_def d_def)
  show ?thesis
    unfolding Cons
    using r len pgv idx g hist'
    by (intro exI [of _ self'] exI [of _ "a(wrist_roll_key \<mapsto> m) # outs"]) simp
qed

section \<open>The wrist roll filter: dead zone\<close>

text \<open>
  Claim C6. The dead zone block runs with the filter types \<open>deadzone\<close> and \<open>combined\<close>.
  In both, a value whose absolute value is strictly below the threshold is replaced by
  exactly 0, and a value whose absolute value is at least the threshold is passed
  through unchanged. With \<open>deadzone\<close> this is the output of \<open>apply_filter\<close>, which the
  filter also remembers as its previous output. With \<open>combined\<close> it is the value that
  the moving average block receives and pushes onto its history, so that on a frame
  without a gripper position the output is the mean of the history with that value.
\<close>

theorem deadzone_exact:
  assumes "filter_type (config self) = DEADZONE \<or> filter_type (config self) = COMBINED"
  shows "(\<bar>x\<bar> < deadzone_threshold (config self) \<longrightarrow> deadzone_stage self x = 0)
       \<and> (deadzone_threshold (config self) \<le> \<bar>x\<bar> \<longrightarrow> deadzone_stage self x = x)
       \<and> (filter_type (config self) = DEADZONE \<and> a wrist_roll_key = Some x \<longrightarrow>
            WristRollFilter_apply_filter self a =
              Inr (self\<lparr>prev_wrist_roll_value :=
                          Some (if \<bar>x\<bar> < deadzone_threshold (config self) then 0 else x)\<rparr>,
                   a(wrist_roll_key \<mapsto>
                       (if \<bar>x\<bar> < deadzone_threshold (config self) then 0 else x))))
       \<and> (filter_type (config self) = COMBINED \<and> a wrist_roll_key = Some x \<longrightarrow>
            WristRollFilter_apply_filter self a =
              (case moving_average_stage self
                      (if \<bar>x\<bar> < deadzone_threshold (config self) then 0 else x) of
                 Inl e \<Rightarrow> Inl e
               | Inr (self1, fv1) \<Rightarrow>
                   (case gripper_linked_stage self1 a fv1 of
                      (self2, fv2) \<Rightarrow>
                        Inr (self2\<lparr>prev_wrist_roll_value := Some fv2\<rparr>,
                             a(wrist_roll_key \<mapsto> fv2)))))
       \<and> (filter_type (config self) = COMBINED \<and> a wrist_roll_key = Some x
            \<and> 1 \<le> moving_average_window (config self)
            \<and> int (length (wrist_roll_history self)) \<le> moving_average_window (config self) \<longrightarrow>
            (\<exists>self' a'. WristRollFilter_apply_filter self a = Inr (self', a')
               \<and> wrist_roll_history self' =
                   fifo_contents (nat (moving_average_window (config self)))
                     (wrist_roll_history self
                        @ [if \<bar>x\<bar> < deadzone_threshold (config self) then 0 else x])
               \<and> (a gripper_key = None \<longrightarrow>
                     a' wrist_roll_key = Some
                       (window_mean (nat (moving_average_window (config self)))
                          (wrist_roll_history self
                             @ [if \<bar>x\<bar> < deadzone_threshold (config self) then 0 else x])))))"
proof -
  let ?d = "if \<bar>x\<bar> < deadzone_threshold (config self) then 0 else x"
  have st: "deadzone_stage self x = ?d"
    using assms by (auto simp: deadzone_stage_def)
  have dz: "filter_type (config self) = DEADZONE \<and> a wrist_roll_key = Some x \<longrightarrow>
            WristRollFilter_apply_filter self a =
              Inr (self\<lparr>prev_wrist_roll_value := Some ?d\<rparr>, a(wrist_roll_key \<mapsto> ?d))"
    by (simp add: WristRollFilter_apply_filter_def deadzone_stage_def moving_average_stage_def
        gripper_linked_stage_def)
  have cb: "filter_type (config self) = COMBINED \<and> a wrist_roll_key = Some x \<longrightarrow>
            WristRollFilter_apply_filter self a =
              (case moving_average_stage self ?d of
                 Inl e \<Rightarrow> Inl e
               | Inr (self1, fv1) \<Rightarrow>
                   (case gripper_linked_stage self1 a fv1 of
                      (self2, fv2) \<Rightarrow>
                        Inr (self2\<lparr>prev_wrist_roll_value := Some fv2\<rparr>,
                             a(wrist_roll_key \<mapsto> fv2))))"
    by (simp add: WristRollFilter_apply_filter_def deadzone_stage_def)
  have hs: "\<exists>self' a'. WristRollFilter_apply_filter self a = Inr (self', a')
               \<and> wrist_roll_history self' =
                   fifo_contents (nat (moving_average_window (config self)))
                     (wrist_roll_history self @ [?d])
               \<and> (a gripper_key = None \<longrightarrow>
                     a' wrist_roll_key = Some
                       (window_mean (nat (moving_average_window (config self)))
                          (wrist_roll_history self @ [?d])))"
    if c: "filter_type (config self) = COMBINED" and x: "a wrist_roll_key = Some x"
      and w: "1 \<le> moving_average_window (config self)"
      and l: "int (length (wrist_roll_history self)) \<le> moving_average_window (config self)"
  proof -
    have "moving_average_stage self ?d =
       Inr (self\<lparr>wrist_roll_history :=
                 fifo_contents (nat (moving_average_window (config self)))
                   (wrist_roll_history self @ [?d])\<rparr>,
            window_mean (nat (moving_average_window (config self)))
              (wrist_roll_history self @ [?d]))"
      using c w l by (intro moving_average_stage_fifo) simp_all
    then show ?thesis
      using cb c x
      by (auto simp: gripper_linked_stage_def Let_def split: option.splits)
  qed
  show ?thesis using st dz cb hs by (simp only: simp_thms if_True if_False) auto
qed

theorem deadzone_exact_witness:
  "WristRollFilter_apply_filter
      (WristRollFilter_init \<lparr>filter_type = DEADZONE, deadzone_threshold = 5,
          moving_average_window = 10, gripper_change_threshold = 5\<rparr>)
      [wrist_roll_key \<mapsto> 3.2]
    = Inr ((WristRollFilter_init \<lparr>filter_type = DEADZONE, deadzone_threshold = 5,
          moving_average_window = 10, gripper_change_threshold = 5\<rparr>)
             \<lparr>prev_wrist_roll_value := Some 0\<rparr>,
           [wrist_roll_key \<mapsto> 0])
   \<and> WristRollFilter_apply_filter
      (WristRollFilter_init \<lparr>filter_type = DEADZONE, deadzone_threshold = 5,
          moving_average_window = 10, gripper_change_threshold = 5\<rparr>)
      [wrist_roll_key \<mapsto> 5]
    = Inr ((WristRollFilter_init \<lparr>filter_type = DEADZONE, deadzone_threshold = 5,
          moving_average_window = 10, gripper_change_threshold = 5\<rparr>)
             \<lparr>prev_wrist_roll_value := Some 5\<rparr>,
           [wrist_roll_key \<mapsto> 5])
   \<and> deadzone_stage
      (WristRollFilter_init \<lparr>filter_type = COMBINED, deadzone_threshold = 20,
          moving_average_window = 10, gripper_change_threshold = 5\<rparr>) (- 19.5) = 0
   \<and> deadzone_stage
      (WristRollFilter_init \<lparr>filter_type = COMBINED, deadzone_threshold = 20,
          moving_average_window = 10, gripper_change_threshold = 5\<rparr>) (- 20) = - 20
   \<and> WristRollFilter_apply_filter
      (WristRollFilter_init \<lparr>filter_type = COMBINED, deadzone_threshold = 20,
          moving_average_window = 10, gripper_change_threshold = 5\<rparr>)
      [wrist_roll_key \<mapsto> 12]
    = Inr ((WristRollFilter_init \<lparr>filter_type = COMBINED, deadzone_threshold = 20,
          moving_average_window = 10, gripper_change_threshold = 5\<rparr>)
             \<lparr>wrist_roll_history := [0], prev_wrist_roll_value := Some 0\<rparr>,
           [wrist_roll_key \<mapsto> 0])
   \<and> WristRollFilter_apply_filter
      (WristRollFilter_init \<lparr>filter_type = COMBINED, deadzone_threshold = 20,
          moving_average_window = 10, gripper_change_threshold = 5\<rparr>)
      [wrist_roll_key \<mapsto> 30]
    = Inr ((WristRollFilter_init \<lparr>filter_type = COMBINED, deadzone_threshold = 20,
          moving_average_window = 10, gripper_change_threshold = 5\<rparr>)
             \<lparr>wrist_roll_history := [30], prev_wrist_roll_value := Some 30\<rparr>,
           [wrist_roll_key \<mapsto> 30])"
  using deadzone_exact [of "WristRollFilter_init \<lparr>filter_type = DEADZONE,
          deadzone_threshold = 5, moving_average_window = 10,
          gripper_change_threshold = 5\<rparr>" "3.2" "[wrist_roll_key \<mapsto> 3.2]"]
    deadzone_exact [of "WristRollFilter_init \<lparr>filter_type = DEADZONE,
          deadzone_threshold = 5, moving_average_window = 10,
          gripper_change_threshold = 5\<rparr>" 5 "[wrist_roll_key \<mapsto> 5]"]
    deadzone_exact [of "WristRollFilter_init \<lparr>filter_type = COMBINED,
          deadzone_threshold = 20, moving_average_window = 10,
          gripper_change_threshold = 5\<rparr>" "- 19.5" "[wrist_roll_key \<mapsto> 12]"]
    deadzone_exact [of "WristRollFilter_init \<lparr>filter_type = COMBINED,
          deadzone_threshold = 20, moving_average_window = 10,
          gripper_change_threshold = 5\<rparr>" "- 20" "[wrist_roll_key \<mapsto> 12]"]
    deadzone_exact [of "WristRollFilter_init \<lparr>filter_type = COMBINED,
          deadzone_threshold = 20, moving_average_window = 10,
          gripper_change_threshold = 5\<rparr>" 12 "[wrist_roll_key \<mapsto> 12]"]
    deadzone_exact [of "WristRollFilter_init \<lparr>filter_type = COMBINED,
          deadzone_threshold = 20, moving_average_window = 10,
          gripper_change_threshold = 5\<rparr>" 30 "[wrist_roll_key \<mapsto> 30]"]
  by (simp add: WristRollFilter_init_def moving_average_stage_def gripper_linked_stage_def
      wrist_roll_key_def gripper_key_def)

section \<open>The wrist roll filter: gripper linked freeze\<close>

text \<open>
  Claim C2. The gripper linked block runs with the filter types \<open>gripper_linked\<close> and
  \<open>combined\<close>. Fed from the initial state with frames that hold both the gripper and
  the wrist roll position: on the first tick the value that reaches the block passes
  through unchanged; on every later tick the output equals the previous tick's output
  exactly when the absolute change of the gripper value since the previous tick exceeds
  the threshold, and otherwise the value that reaches the block passes through. That
  value is the input itself with \<open>gripper_linked\<close>; with \<open>combined\<close> it is the mean of
  the bounded history of the inputs after the dead zone (for a window of at least one
  entry: with a smaller one the moving average block raises before the gripper linked
  block is reached). The gripper value of the last tick is the one recorded in the
  filter. The block itself, in any state: it records
  the gripper value, and it puts out the previous output exactly when both previous
  values exist and the change exceeds the threshold. The witness is the scenario of
  the specification (threshold 5, pairs (0,10), (8,12), (8,20), outputs 10, 10, 20) and
  the default combined configuration on (0,30), (8,40), (8,50), with outputs 30, 30, 40.
\<close>

theorem gripper_linked_freeze:
  assumes "filter_type cfg = GRIPPER_LINKED \<or> filter_type cfg = COMBINED"
    and "filter_type cfg = COMBINED \<longrightarrow> 1 \<le> moving_average_window cfg"
    and "\<forall>a\<in>set frames. a wrist_roll_key \<noteq> None \<and> a gripper_key \<noteq> None"
  shows "(\<exists>self' outs. run_wrist_filter (WristRollFilter_init cfg) frames = Inr (self', outs)
      \<and> length outs = length frames
      \<and> (frames \<noteq> [] \<longrightarrow> prev_gripper_value self' = (last frames) gripper_key)
      \<and> (\<forall>i<length frames. (outs ! i) wrist_roll_key =
            (if 0 < i \<and> \<bar>the ((frames ! i) gripper_key) - the ((frames ! (i - 1)) gripper_key)\<bar>
                 > gripper_change_threshold cfg
             then (outs ! (i - 1)) wrist_roll_key
             else if filter_type cfg = COMBINED
                  then Some (window_mean (nat (moving_average_window cfg))
                          (map (\<lambda>a. if \<bar>the (a wrist_roll_key)\<bar> < deadzone_threshold cfg
                                     then 0 else the (a wrist_roll_key))
                             (take (Suc i) frames)))
                  else (frames ! i) wrist_roll_key)))
    \<and> (filter_type (config s) = filter_type cfg \<and> b gripper_key = Some g \<longrightarrow>
         gripper_linked_stage s b v =
           (s\<lparr>prev_gripper_value := Some g\<rparr>,
            (case prev_gripper_value s of
               None \<Rightarrow> v
             | Some pg \<Rightarrow>
                 (case prev_wrist_roll_value s of
                    None \<Rightarrow> v
                  | Some pw \<Rightarrow>
                      if \<bar>g - pg\<bar> > gripper_change_threshold (config s) then pw else v))))"
proof -
  let ?dz = "\<lambda>a. deadzone_stage (WristRollFilter_init cfg) (the (a wrist_roll_key))"
  let ?dz' = "\<lambda>a. if \<bar>the (a wrist_roll_key)\<bar> < deadzone_threshold cfg
                     then 0 else the (a wrist_roll_key)"
  have w: "filter_type cfg = COMBINED \<Longrightarrow> 1 \<le> moving_average_window cfg"
    using assms(2) by simp
  have dz: "?dz = ?dz'" if "filter_type cfg = COMBINED"
    using that by (auto simp: deadzone_stage_def WristRollFilter_init_def)
  from gripper_run_init [OF assms(1) w assms(3)] obtain self' outs where
    run: "run_wrist_filter (WristRollFilter_init cfg) frames = Inr (self', outs)"
    and len: "length outs = length frames"
    and pgv: "frames \<noteq> [] \<longrightarrow> prev_gripper_value self' = (last frames) gripper_key"
    and ih: "\<forall>i<length frames. (outs ! i) wrist_roll_key =
            (if 0 < i \<and> \<bar>the ((frames ! i) gripper_key) - the ((frames ! (i - 1)) gripper_key)\<bar>
                 > gripper_change_threshold cfg
             then (outs ! (i - 1)) wrist_roll_key
             else Some
               (if filter_type cfg = COMBINED
                then window_mean (nat (moving_average_window cfg)) (map ?dz (take (Suc i) frames))
                else the ((frames ! i) wrist_roll_key)))"
    by blast
  have idx: "(outs ! i) wrist_roll_key =
            (if 0 < i \<and> \<bar>the ((frames ! i) gripper_key) - the ((frames ! (i - 1)) gripper_key)\<bar>
                 > gripper_change_threshold cfg
             then (outs ! (i - 1)) wrist_roll_key
             else if filter_type cfg = COMBINED
                  then Some (window_mean (nat (moving_average_window cfg))
                          (map ?dz' (take (Suc i) frames)))
                  else (frames ! i) wrist_roll_key)" if i: "i < length frames" for i
  proof -
    have "(frames ! i) wrist_roll_key \<noteq> None" using assms(3) i by simp
    then obtain x where "(frames ! i) wrist_roll_key = Some x" by auto
    then show ?thesis
      using ih [rule_format, OF i] dz by (cases "filter_type cfg = COMBINED") auto
  qed
  have st: "filter_type (config s) = filter_type cfg \<and> b gripper_key = Some g \<longrightarrow>
         gripper_linked_stage s b v =
           (s\<lparr>prev_gripper_value := Some g\<rparr>,
            (case prev_gripper_value s of
               None \<Rightarrow> v
             | Some pg \<Rightarrow>
                 (case prev_wrist_roll_value s of
                    None \<Rightarrow> v
                  | Some pw \<Rightarrow>
                      if \<bar>g - pg\<bar> > gripper_change_threshold (config s) then pw else v)))"
    using assms(1) by (auto simp: gripper_linked_stage_def Let_def split: option.splits)
  have "\<exists>self' outs. run_wrist_filter (WristRollFilter_init cfg) frames = Inr (self', outs)
      \<and> length outs = length frames
      \<and> (frames \<noteq> [] \<longrightarrow> prev_gripper_value self' = (last frames) gripper_key)
      \<and> (\<forall>i<length frames. (outs ! i) wrist_roll_key =
            (if 0 < i \<and> \<bar>the ((frames ! i) gripper_key) - the ((frames ! (i - 1)) gripper_key)\<bar>
                 > gripper_change_threshold cfg
             then (outs ! (i - 1)) wrist_roll_key
             else if filter_type cfg = COMBINED
                  then Some (window_mean (nat (moving_average_window cfg))
                          (map ?dz' (take (Suc i) frames)))
                  else (frames ! i) wrist_roll_key))"
    using run len pgv idx by (intro exI [of _ self'] exI [of _ outs]) blast
  then show ?thesis using st by blast
qed

theorem gripper_linked_freeze_witness:
  "(\<exists>self' outs.
     run_wrist_filter
       (WristRollFilter_init \<lparr>filter_type = GRIPPER_LINKED, deadzone_threshold = 20,
          moving_average_window = 10, gripper_change_threshold = 5\<rparr>)
       [[gripper_key \<mapsto> 0, wrist_roll_key \<mapsto> 10],
        [gripper_key \<mapsto> 8, wrist_roll_key \<mapsto> 12],
        [gripper_key \<mapsto> 8, wrist_roll_key \<mapsto> 20]] = Inr (self', outs)
     \<and> map (\<lambda>a. a wrist_roll_key) outs = [Some 10, Some 10, Some 20]
     \<and> prev_gripper_value self' = Some 8)
   \<and> (\<exists>self' outs.
     run_wrist_filter
       (WristRollFilter_init \<lparr>filter_type = COMBINED, deadzone_threshold = 20,
          moving_average_window = 10, gripper_change_threshold = 5\<rparr>)
       [[gripper_key \<mapsto> 0, wrist_roll_key \<mapsto> 30],
        [gripper_key \<mapsto> 8, wrist_roll_key \<mapsto> 40],
        [gripper_key \<mapsto> 8, wrist_roll_key \<mapsto> 50]] = Inr (self', outs)
     \<and> map (\<lambda>a. a wrist_roll_key) outs = [Some 30, Some 30, Some 40]
     \<and> prev_gripper_value self' = Some 8)"
  using gripper_linked_freeze [of "\<lparr>filter_type = GRIPPER_LINKED, deadzone_threshold = 20,
          moving_average_window = 10, gripper_change_threshold = 5\<rparr>"
       "[[gripper_key \<mapsto> 0, wrist_roll_key \<mapsto> 10],
        [gripper_key \<mapsto> 8, wrist_roll_key \<mapsto> 12],
        [gripper_key \<mapsto> 8, wrist_roll_key \<mapsto> 20]]"]
    gripper_linked_freeze [of "\<lparr>filter_type = COMBINED, deadzone_threshold = 20,
          moving_average_window = 10, gripper_change_threshold = 5\<rparr>"
       "[[gripper_key \<mapsto> 0, wrist_roll_key \<mapsto> 30],
        [gripper_key \<mapsto> 8, wrist_roll_key \<mapsto> 40],
        [gripper_key \<mapsto> 8, wrist_roll_key \<mapsto> 50]]"]
  by (simp add: WristRollFilter_init_def WristRollFilter_apply_filter_def deadzone_stage_def
      moving_average_stage_def gripper_linked_stage_def wrist_roll_key_def gripper_key_def)

section \<open>The wrist roll filter: moving average\<close>













section \<open>Both filters: the effect on the frame\<close>

lemma wrist_filter_frame:
  assumes "WristRollFilter_apply_filter self a = Inr (self', a')"
  shows "dom a' = dom a \<and> (\<forall>k. k \<noteq> wrist_roll_key \<longrightarrow> a' k = a k)"
  using assms
  by (auto simp: WristRollFilter_apply_filter_def split: option.splits if_splits sum.splits prod.splits)

lemma moving_average_stage_returns:
  assumes "1 \<le> moving_average_window (config self)"
  shows "\<exists>self' y. moving_average_stage self x = Inr (self', y)"
proof (cases "wrist_roll_history self")
  case Nil
  with assms show ?thesis by (simp add: moving_average_stage_def Let_def)
next
  case (Cons h hs)
  then show ?thesis by (simp add: moving_average_stage_def Let_def)
qed

lemma wrist_filter_returns:
  assumes "1 \<le> moving_average_window (config self)"
  shows "\<exists>r. WristRollFilter_apply_filter self a = Inr r"
proof (cases "a wrist_roll_key")
  case None
  then show ?thesis by (simp add: WristRollFilter_apply_filter_def)
next
  case (Some x)
  obtain self' y where "moving_average_stage self (deadzone_stage self x) = Inr (self', y)"
    using moving_average_stage_returns [OF assms] by blast
  with Some show ?thesis
    by (simp add: WristRollFilter_apply_filter_def split: prod.splits)
qed

lemma elbow_filter_frame:
  assumes "ElbowFlexFilter_apply_filter s a = (s', a')"
  shows "dom a' = dom a \<and> (\<forall>k. k \<noteq> wrist_key \<longrightarrow> a' k = a k)"
  using assms
  by (auto simp: ElbowFlexFilter_apply_filter_def Let_def split: option.splits if_splits)

text \<open>
  Claim C10. \<open>WristRollFilter.apply_filter\<close> and \<open>ElbowFlexFilter.apply_filter\<close> change
  at most the entry \<open>wrist_roll.pos\<close> of the frame: the key set stays the same and
  every other key keeps its value. When the watched key is absent (for the elbow filter:
  one of the two watched keys), the frame is returned unchanged and so is the filter.
  The only call of the wrist roll filter that returns no frame is the division by zero
  of the moving average with a window that is not positive.
\<close>

theorem filters_change_only_wrist_roll:
  "(case WristRollFilter_apply_filter self a of
      Inl e \<Rightarrow> e = ZeroDivisionError \<and> moving_average_window (config self) \<le> 0
    | Inr (self', a') \<Rightarrow> dom a' = dom a \<and> (\<forall>k. k \<noteq> wrist_roll_key \<longrightarrow> a' k = a k))
   \<and> (a wrist_roll_key = None \<longrightarrow> WristRollFilter_apply_filter self a = Inr (self, a))
   \<and> dom (snd (ElbowFlexFilter_apply_filter s a)) = dom a
   \<and> (\<forall>k. k \<noteq> wrist_key \<longrightarrow> snd (ElbowFlexFilter_apply_filter s a) k = a k)
   \<and> (a elbow_key = None \<or> a wrist_key = None
        \<longrightarrow> ElbowFlexFilter_apply_filter s a = (s, a))"
proof -
  have w: "(case WristRollFilter_apply_filter self a of
      Inl e \<Rightarrow> e = ZeroDivisionError \<and> moving_average_window (config self) \<le> 0
    | Inr (self', a') \<Rightarrow> dom a' = dom a \<and> (\<forall>k. k \<noteq> wrist_roll_key \<longrightarrow> a' k = a k))"
  proof (cases "WristRollFilter_apply_filter self a")
    case (Inl e)
    have "moving_average_window (config self) \<le> 0"
      using wrist_filter_returns [of self a] Inl by (cases "1 \<le> moving_average_window (config self)") auto
    moreover have "e = ZeroDivisionError"
      using Inl
      by (auto simp: WristRollFilter_apply_filter_def moving_average_stage_def Let_def
          split: option.splits if_splits sum.splits prod.splits)
    ultimately show ?thesis using Inl by simp
  next
    case (Inr r)
    then show ?thesis
      using wrist_filter_frame [of self a "fst r" "snd r"] by (simp add: case_prod_beta)
  qed
  have n: "a wrist_roll_key = None \<longrightarrow> WristRollFilter_apply_filter self a = Inr (self, a)"
    by (simp add: WristRollFilter_apply_filter_def)
  have e: "dom (snd (ElbowFlexFilter_apply_filter s a)) = dom a
      \<and> (\<forall>k. k \<noteq> wrist_key \<longrightarrow> snd (ElbowFlexFilter_apply_filter s a) k = a k)"
    using elbow_filter_frame [of s a "fst (ElbowFlexFilter_apply_filter s a)"
        "snd (ElbowFlexFilter_apply_filter s a)"] by simp
  have m: "a elbow_key = None \<or> a wrist_key = None
        \<longrightarrow> ElbowFlexFilter_apply_filter s a = (s, a)"
    by (auto simp: ElbowFlexFilter_apply_filter_def split: option.splits)
  show ?thesis using w n e m by blast
qed

theorem filters_change_only_wrist_roll_witness:
  "WristRollFilter_apply_filter
      (WristRollFilter_init \<lparr>filter_type = COMBINED, deadzone_threshold = 20,
          moving_average_window = 10, gripper_change_threshold = 5\<rparr>)
      [''shoulder_pan.pos'' \<mapsto> 1, gripper_key \<mapsto> 2, wrist_roll_key \<mapsto> 3]
    = Inr ((WristRollFilter_init \<lparr>filter_type = COMBINED, deadzone_threshold = 20,
          moving_average_window = 10, gripper_change_threshold = 5\<rparr>)
             \<lparr>wrist_roll_history := [0], prev_gripper_value := Some 2,
              prev_wrist_roll_value := Some 0\<rparr>,
           [''shoulder_pan.pos'' \<mapsto> 1, gripper_key \<mapsto> 2, wrist_roll_key \<mapsto> 0])
   \<and> WristRollFilter_apply_filter
      (WristRollFilter_init \<lparr>filter_type = COMBINED, deadzone_threshold = 20,
          moving_average_window = 10, gripper_change_threshold = 5\<rparr>)
      [gripper_key \<mapsto> 2]
    = Inr (WristRollFilter_init \<lparr>filter_type = COMBINED, deadzone_threshold = 20,
          moving_average_window = 10, gripper_change_threshold = 5\<rparr>, [gripper_key \<mapsto> 2])
   \<and> ElbowFlexFilter_apply_filter (ElbowFlexFilter_init 2 5 0.8 True) [wrist_key \<mapsto> 3]
    = (ElbowFlexFilter_init 2 5 0.8 True, [wrist_key \<mapsto> 3])"
  using filters_change_only_wrist_roll
    [of "WristRollFilter_init \<lparr>filter_type = COMBINED, deadzone_threshold = 20,
          moving_average_window = 10, gripper_change_threshold = 5\<rparr>"
        "[gripper_key \<mapsto> 2]" "ElbowFlexFilter_init 2 5 0.8 True"]
    filters_change_only_wrist_roll
    [of "WristRollFilter_init \<lparr>filter_type = COMBINED, deadzone_threshold = 20,
          moving_average_window = 10, gripper_change_threshold = 5\<rparr>"
        "[wrist_key \<mapsto> 3]" "ElbowFlexFilter_init 2 5 0.8 True"]
  by (simp add: WristRollFilter_init_def WristRollFilter_apply_filter_def deadzone_stage_def
      moving_average_stage_def gripper_linked_stage_def ElbowFlexFilter_apply_filter_def
      wrist_roll_key_def gripper_key_def wrist_key_def elbow_key_def)

section \<open>The elbow linked filter: the adaptive threshold\<close>

lemma update_adaptive_fields:
  "prev_wrist_value (update_adaptive_threshold s c) = prev_wrist_value s"
  "filter_strength (update_adaptive_threshold s c) = filter_strength s"
  "wrist_deadzone (update_adaptive_threshold s c) = wrist_deadzone s"
  "prev_elbow_value (update_adaptive_threshold s c) = prev_elbow_value s"
  "adaptive_threshold (update_adaptive_threshold s c) = adaptive_threshold s"
  "max_history_size (update_adaptive_threshold s c) = max_history_size s"
  "total_frames (update_adaptive_threshold s c) = total_frames s"
  "filtered_frames (update_adaptive_threshold s c) = filtered_frames s"
  by (simp_all add: update_adaptive_threshold_def Let_def)

lemma update_adaptive_disabled:
  "\<not> adaptive_threshold s \<Longrightarrow> update_adaptive_threshold s c = s"
  by (simp add: update_adaptive_threshold_def)

lemma update_adaptive_history_length:
  "length (elbow_changes_history s)
     \<le> length (elbow_changes_history (update_adaptive_threshold s c))"
  by (simp add: update_adaptive_threshold_def Let_def)

lemma update_adaptive_small:
  "length (elbow_changes_history (update_adaptive_threshold s c)) < 10
     \<Longrightarrow> elbow_threshold (update_adaptive_threshold s c) = elbow_threshold s"
  by (auto simp: update_adaptive_threshold_def Let_def split: if_splits)

lemma update_adaptive_large:
  "adaptive_threshold s
     \<Longrightarrow> 10 \<le> length (elbow_changes_history (update_adaptive_threshold s c))
     \<Longrightarrow> elbow_threshold (update_adaptive_threshold s c) =
           0.9 * elbow_threshold s
           + 0.1 * (np_mean (elbow_changes_history (update_adaptive_threshold s c))
                    + 1.5 * np_std (elbow_changes_history (update_adaptive_threshold s c)))"
  by (auto simp: update_adaptive_threshold_def Let_def split: if_splits)

text \<open>What one call of the filter does to the threshold and to the history.\<close>

lemma apply_filter_threshold:
  "elbow_threshold (fst (ElbowFlexFilter_apply_filter s a)) =
     (case (prev_elbow_value s, a elbow_key, a wrist_key) of
        (Some pe, Some ce, Some cw) \<Rightarrow>
           elbow_threshold (update_adaptive_threshold s \<bar>ce - pe\<bar>)
      | _ \<Rightarrow> elbow_threshold s)"
  "elbow_changes_history (fst (ElbowFlexFilter_apply_filter s a)) =
     (case (prev_elbow_value s, a elbow_key, a wrist_key) of
        (Some pe, Some ce, Some cw) \<Rightarrow>
           elbow_changes_history (update_adaptive_threshold s \<bar>ce - pe\<bar>)
      | _ \<Rightarrow> elbow_changes_history s)"
  "adaptive_threshold (fst (ElbowFlexFilter_apply_filter s a)) = adaptive_threshold s"
  by (auto simp: ElbowFlexFilter_apply_filter_def Let_def update_adaptive_threshold_def
      split: option.splits)

lemma apply_filter_disabled:
  "\<not> adaptive_threshold s
     \<Longrightarrow> elbow_threshold (fst (ElbowFlexFilter_apply_filter s a)) = elbow_threshold s"
  by (simp add: apply_filter_threshold update_adaptive_disabled split: option.splits)

lemma apply_filter_history_length:
  "length (elbow_changes_history s)
     \<le> length (elbow_changes_history (fst (ElbowFlexFilter_apply_filter s a)))"
  by (simp add: apply_filter_threshold update_adaptive_history_length split: option.splits)

lemma apply_filter_small:
  "length (elbow_changes_history (fst (ElbowFlexFilter_apply_filter s a))) < 10
     \<Longrightarrow> elbow_threshold (fst (ElbowFlexFilter_apply_filter s a)) = elbow_threshold s"
  by (auto simp: apply_filter_threshold update_adaptive_small split: option.splits)

lemma run_elbow_filter_Cons:
  "fst (run_elbow_filter s (a # rest))
     = fst (run_elbow_filter (fst (ElbowFlexFilter_apply_filter s a)) rest)"
  by (simp split: prod.splits)

lemma run_disabled:
  "\<not> adaptive_threshold s
     \<Longrightarrow> elbow_threshold (fst (run_elbow_filter s frames)) = elbow_threshold s"
proof (induction frames arbitrary: s)
  case Nil
  then show ?case by simp
next
  case (Cons a rest)
  have "\<not> adaptive_threshold (fst (ElbowFlexFilter_apply_filter s a))"
    using Cons.prems by (simp add: apply_filter_threshold)
  from Cons.IH [OF this] show ?case
    using apply_filter_disabled [OF Cons.prems, of a] by (simp only: run_elbow_filter_Cons)
qed

lemma run_history_length:
  "length (elbow_changes_history s)
     \<le> length (elbow_changes_history (fst (run_elbow_filter s frames)))"
proof (induction frames arbitrary: s)
  case Nil
  then show ?case by simp
next
  case (Cons a rest)
  show ?case
    using Cons.IH [of "fst (ElbowFlexFilter_apply_filter s a)"]
      apply_filter_history_length [of s a]
    by (simp only: run_elbow_filter_Cons)
qed

lemma run_small:
  "length (elbow_changes_history (fst (run_elbow_filter s frames))) < 10
     \<Longrightarrow> elbow_threshold (fst (run_elbow_filter s frames)) = elbow_threshold s"
proof (induction frames arbitrary: s)
  case Nil
  then show ?case by simp
next
  case (Cons a rest)
  let ?s1 = "fst (ElbowFlexFilter_apply_filter s a)"
  have l: "length (elbow_changes_history (fst (run_elbow_filter ?s1 rest))) < 10"
    using Cons.prems by (simp only: run_elbow_filter_Cons)
  then have "length (elbow_changes_history ?s1) < 10"
    using run_history_length [of ?s1 rest] by linarith
  then have "elbow_threshold ?s1 = elbow_threshold s" by (rule apply_filter_small)
  with Cons.IH [OF l] show ?case by (simp only: run_elbow_filter_Cons)
qed

lemma run_elbow_filter_snoc:
  "fst (run_elbow_filter s (frames @ [a]))
     = fst (ElbowFlexFilter_apply_filter (fst (run_elbow_filter s frames)) a)"
proof (induction frames arbitrary: s)
  case Nil
  then show ?case by (simp split: prod.splits)
next
  case (Cons f rest)
  show ?case
    using Cons.IH [of "fst (ElbowFlexFilter_apply_filter s f)"]
    by (simp only: append_Cons run_elbow_filter_Cons)
qed

text \<open>The configured parameters are never written after the construction.\<close>

lemma apply_filter_params:
  "filter_strength (fst (ElbowFlexFilter_apply_filter s a)) = filter_strength s"
  "wrist_deadzone (fst (ElbowFlexFilter_apply_filter s a)) = wrist_deadzone s"
  "max_history_size (fst (ElbowFlexFilter_apply_filter s a)) = max_history_size s"
  by (simp_all add: ElbowFlexFilter_apply_filter_def Let_def update_adaptive_fields
      split: option.splits)

lemma run_params:
  "filter_strength (fst (run_elbow_filter s frames)) = filter_strength s
   \<and> wrist_deadzone (fst (run_elbow_filter s frames)) = wrist_deadzone s
   \<and> max_history_size (fst (run_elbow_filter s frames)) = max_history_size s
   \<and> adaptive_threshold (fst (run_elbow_filter s frames)) = adaptive_threshold s"
proof (induction frames arbitrary: s)
  case Nil
  then show ?case by simp
next
  case (Cons a rest)
  show ?case
    using Cons.IH [of "fst (ElbowFlexFilter_apply_filter s a)"]
    by (simp only: run_elbow_filter_Cons apply_filter_params apply_filter_threshold)
qed

text \<open>
  The history of the filter after a run from the initial state: the elbow changes from
  frame to frame, the oldest ones evicted beyond \<open>max_history_size = 100\<close>.
\<close>

lemma update_adaptive_history:
  assumes "adaptive_threshold s"
    and "int (length (elbow_changes_history s)) \<le> max_history_size s"
  shows "elbow_changes_history (update_adaptive_threshold s c)
           = fifo_contents (nat (max_history_size s)) (elbow_changes_history s @ [c])"
  using assms(1) pop_oldest_fifo [OF assms(2), of c]
  by (simp add: update_adaptive_threshold_def Let_def del: length_append)

lemma update_adaptive_value:
  "elbow_threshold (update_adaptive_threshold s c) =
     (if adaptive_threshold s \<and> 10 \<le> length (elbow_changes_history (update_adaptive_threshold s c))
      then 0.9 * elbow_threshold s
           + 0.1 * (np_mean (elbow_changes_history (update_adaptive_threshold s c))
                    + 1.5 * np_std (elbow_changes_history (update_adaptive_threshold s c)))
      else elbow_threshold s)"
  by (auto simp: update_adaptive_threshold_def Let_def)

lemma elbow_changes_snoc:
  assumes "frames \<noteq> []"
  shows "elbow_changes (frames @ [a])
           = elbow_changes frames @ [\<bar>the (a elbow_key) - the ((last frames) elbow_key)\<bar>]"
proof -
  obtain n where n: "length frames = Suc n" using assms by (cases frames) auto
  have l: "last frames = frames ! n" using assms n by (simp add: last_conv_nth)
  show ?thesis
    using n l by (simp add: elbow_changes_def nth_append)
qed

lemma elbow_changes_one: "elbow_changes [a] = []"
  by (simp add: elbow_changes_def)

lemma elbow_run_state:
  assumes "frames \<noteq> []"
    and "\<forall>f\<in>set frames. f elbow_key \<noteq> None \<and> f wrist_key \<noteq> None"
  shows "prev_elbow_value (fst (run_elbow_filter (ElbowFlexFilter_init thr dz str ad) frames))
           = (last frames) elbow_key
       \<and> elbow_changes_history (fst (run_elbow_filter (ElbowFlexFilter_init thr dz str ad) frames))
           = (if ad then fifo_contents 100 (elbow_changes frames) else [])"
  using assms
proof (induction frames rule: rev_induct)
  case Nil
  then show ?case by simp
next
  case (snoc a frames)
  let ?i = "ElbowFlexFilter_init thr dz str ad"
  let ?s = "fst (run_elbow_filter ?i frames)"
  from snoc.prems(2) obtain ce cw where ce: "a elbow_key = Some ce" and cw: "a wrist_key = Some cw"
    by auto
  show ?case
  proof (cases "frames = []")
    case True
    then show ?thesis
      using ce cw
      by (simp add: ElbowFlexFilter_init_def ElbowFlexFilter_apply_filter_def elbow_changes_one
          fifo_contents_def split: prod.splits)
  next
    case False
    have k: "\<forall>f\<in>set frames. f elbow_key \<noteq> None \<and> f wrist_key \<noteq> None"
      using snoc.prems(2) by simp
    from snoc.IH [OF False k] have
      pe: "prev_elbow_value ?s = (last frames) elbow_key"
      and h: "elbow_changes_history ?s = (if ad then fifo_contents 100 (elbow_changes frames) else [])"
      by simp_all
    from k False obtain pv where pv: "(last frames) elbow_key = Some pv"
      by (metis last_in_set not_None_eq)
    have par: "max_history_size ?s = 100" "adaptive_threshold ?s = ad"
      using run_params [of ?i frames] by (simp_all add: ElbowFlexFilter_init_def)
    have len: "int (length (elbow_changes_history ?s)) \<le> max_history_size ?s"
      using fifo_contents_length [of 100 "elbow_changes frames"] by (simp add: h par)
    have p1: "prev_elbow_value (fst (ElbowFlexFilter_apply_filter ?s a)) = Some ce"
      using ce cw by (simp add: ElbowFlexFilter_apply_filter_def Let_def split: option.splits)
    have h1: "elbow_changes_history (fst (ElbowFlexFilter_apply_filter ?s a))
                = elbow_changes_history (update_adaptive_threshold ?s \<bar>ce - pv\<bar>)"
      using ce cw pe pv by (simp add: apply_filter_threshold)
    have h2: "elbow_changes_history (update_adaptive_threshold ?s \<bar>ce - pv\<bar>)
                = (if ad then fifo_contents 100 (elbow_changes (frames @ [a])) else [])"
    proof (cases ad)
      case True
      then have "adaptive_threshold ?s" using par by simp
      from update_adaptive_history [OF this len, of "\<bar>ce - pv\<bar>"] show ?thesis
        using True h par fifo_contents_push [of 100 "elbow_changes frames" "[\<bar>ce - pv\<bar>]"]
        by (simp add: elbow_changes_snoc [OF False] ce pv)
    next
      case False
      then show ?thesis using par h by (simp add: update_adaptive_disabled)
    qed
    show ?thesis
      using p1 h1 h2 ce by (simp only: run_elbow_filter_snoc last_snoc)
  qed
qed

text \<open>A frame that lacks one of the two positions leaves the filter as it is.\<close>

lemma run_elbow_filter_skip:
  "fst (run_elbow_filter s frames)
     = fst (run_elbow_filter s
              (filter (\<lambda>f. f elbow_key \<noteq> None \<and> f wrist_key \<noteq> None) frames))"
proof (induction frames arbitrary: s)
  case Nil
  then show ?case by simp
next
  case (Cons a rest)
  show ?case
  proof (cases "a elbow_key \<noteq> None \<and> a wrist_key \<noteq> None")
    case True
    then have "filter (\<lambda>f. f elbow_key \<noteq> None \<and> f wrist_key \<noteq> None) (a # rest)
                 = a # filter (\<lambda>f. f elbow_key \<noteq> None \<and> f wrist_key \<noteq> None) rest"
      by simp
    then show ?thesis
      using Cons.IH [of "fst (ElbowFlexFilter_apply_filter s a)"]
      by (simp only: run_elbow_filter_Cons)
  next
    case False
    then have f: "filter (\<lambda>f. f elbow_key \<noteq> None \<and> f wrist_key \<noteq> None) (a # rest)
                    = filter (\<lambda>f. f elbow_key \<noteq> None \<and> f wrist_key \<noteq> None) rest"
      by simp
    from False have "ElbowFlexFilter_apply_filter s a = (s, a)"
      by (auto simp: ElbowFlexFilter_apply_filter_def split: option.splits)
    then show ?thesis
      using Cons.IH [of s] by (simp only: f run_elbow_filter_Cons fst_conv)
  qed
qed

text \<open>
  Claim C3. Across every sequence of frames fed to the elbow linked filter: when the
  adaptive threshold is switched off the threshold never changes, and as long as the
  history of elbow changes holds fewer than 10 entries the threshold has not changed.
  A frame that lacks one of the two positions changes nothing, so a run over any frames
  is the run over those that hold both.
  Fed from the initial state with frames that hold both positions, the history holds
  the absolute elbow changes from frame to frame, the last 100 of them at most, and
  nothing when the adaptive threshold is off; so for the first ten frames the
  threshold is the configured one. On every tick that leaves 10 or more entries in the
  history, the new threshold is \<open>0.9 * threshold + 0.1 * (mean + 1.5 * std)\<close>, with the
  threshold before the tick and the mean and the population standard deviation of the
  history after it; on every other tick the threshold stays.
\<close>

theorem adaptive_threshold_update:
  assumes "frames \<noteq> []"
    and "\<forall>f\<in>set frames. f elbow_key \<noteq> None \<and> f wrist_key \<noteq> None"
    and "a elbow_key \<noteq> None \<and> a wrist_key \<noteq> None"
  shows "(\<not> adaptive_threshold s0 \<longrightarrow>
            elbow_threshold (fst (run_elbow_filter s0 fs)) = elbow_threshold s0)
       \<and> (length (elbow_changes_history (fst (run_elbow_filter s0 fs))) < 10 \<longrightarrow>
            elbow_threshold (fst (run_elbow_filter s0 fs)) = elbow_threshold s0)
       \<and> fst (run_elbow_filter s0 fs)
          = fst (run_elbow_filter s0
                   (filter (\<lambda>f. f elbow_key \<noteq> None \<and> f wrist_key \<noteq> None) fs))
       \<and> elbow_changes_history
            (fst (run_elbow_filter (ElbowFlexFilter_init thr dz str ad) (frames @ [a])))
          = (if ad then fifo_contents 100 (elbow_changes (frames @ [a])) else [])
       \<and> (length frames < 10 \<longrightarrow>
            elbow_threshold
              (fst (run_elbow_filter (ElbowFlexFilter_init thr dz str ad) (frames @ [a]))) = thr)
       \<and> elbow_threshold
            (fst (run_elbow_filter (ElbowFlexFilter_init thr dz str ad) (frames @ [a])))
          = (let h = fifo_contents 100 (elbow_changes (frames @ [a]));
                 mean = sum_list h / real (length h);
                 std = sqrt (sum_list (map (\<lambda>x. (x - mean) ^ 2) h) / real (length h));
                 threshold =
                   elbow_threshold
                     (fst (run_elbow_filter (ElbowFlexFilter_init thr dz str ad) frames))
             in if ad \<and> 10 \<le> length h
                then 0.9 * threshold + 0.1 * (mean + 1.5 * std)
                else threshold)"
proof -
  let ?i = "ElbowFlexFilter_init thr dz str ad"
  let ?s = "fst (run_elbow_filter ?i frames)"
  let ?s' = "fst (run_elbow_filter ?i (frames @ [a]))"
  let ?h = "fifo_contents 100 (elbow_changes (frames @ [a]))"
  have k: "\<forall>f\<in>set (frames @ [a]). f elbow_key \<noteq> None \<and> f wrist_key \<noteq> None"
    using assms(2,3) by simp
  have hist: "elbow_changes_history ?s' = (if ad then ?h else [])"
    using elbow_run_state [of "frames @ [a]" thr dz str ad] k by simp
  from assms(3) obtain ce cw where ce: "a elbow_key = Some ce" and cw: "a wrist_key = Some cw"
    by auto
  from elbow_run_state [OF assms(1,2), of thr dz str ad]
  have pe: "prev_elbow_value ?s = (last frames) elbow_key" by simp
  from assms(1,2) obtain pv where pv: "(last frames) elbow_key = Some pv"
    by (metis last_in_set not_None_eq)
  have ad: "adaptive_threshold ?s = ad"
    using run_params [of ?i frames] by (simp add: ElbowFlexFilter_init_def)
  have step: "?s' = fst (ElbowFlexFilter_apply_filter ?s a)"
    by (rule run_elbow_filter_snoc)
  have th: "elbow_threshold ?s' = elbow_threshold (update_adaptive_threshold ?s \<bar>ce - pv\<bar>)"
    and hh: "elbow_changes_history ?s'
               = elbow_changes_history (update_adaptive_threshold ?s \<bar>ce - pv\<bar>)"
    using ce cw pe pv by (simp_all add: step apply_filter_threshold)
  have std: "np_std ?h
      = sqrt (sum_list (map (\<lambda>x. (x - sum_list ?h / real (length ?h)) ^ 2) ?h) / real (length ?h))"
    by (simp add: np_std_def np_mean_def)
  have val: "elbow_threshold ?s'
      = (if ad \<and> 10 \<le> length ?h
         then 0.9 * elbow_threshold ?s
              + 0.1 * (sum_list ?h / real (length ?h)
                       + 1.5 * sqrt (sum_list (map (\<lambda>x. (x - sum_list ?h / real (length ?h)) ^ 2) ?h)
                                       / real (length ?h)))
         else elbow_threshold ?s)"
  proof (cases ad)
    case True
    have "elbow_changes_history (update_adaptive_threshold ?s \<bar>ce - pv\<bar>) = ?h"
      using hh hist True by simp
    then show ?thesis
      using update_adaptive_value [of ?s "\<bar>ce - pv\<bar>"] th ad True std
      by (simp add: np_mean_def)
  next
    case False
    then show ?thesis using th ad by (simp add: update_adaptive_disabled)
  qed
  have init_thr: "elbow_threshold ?i = thr" by (simp add: ElbowFlexFilter_init_def)
  have small: "elbow_threshold ?s' = thr" if "length frames < 10"
  proof -
    have "length (elbow_changes (frames @ [a])) = length frames"
      by (simp add: elbow_changes_def)
    then have "length ?h < 10"
      using that fifo_contents_length [of 100 "elbow_changes (frames @ [a])"]
      by (simp add: fifo_contents_def)
    then have "length (elbow_changes_history ?s') < 10" using hist by simp
    from run_small [OF this] show ?thesis using init_thr by simp
  qed
  show ?thesis
    using run_disabled [of s0 fs] run_small [of s0 fs] run_elbow_filter_skip [of s0 fs]
      hist small val
    by (simp add: Let_def)
qed

theorem adaptive_threshold_update_witness:
  "elbow_threshold (fst (run_elbow_filter (ElbowFlexFilter_init 2 5 0.8 True)
       [[elbow_key \<mapsto> 0, wrist_key \<mapsto> 1], [elbow_key \<mapsto> 0, wrist_key \<mapsto> 1],
        [elbow_key \<mapsto> 2, wrist_key \<mapsto> 1], [elbow_key \<mapsto> 2, wrist_key \<mapsto> 1],
        [elbow_key \<mapsto> 4, wrist_key \<mapsto> 1], [elbow_key \<mapsto> 4, wrist_key \<mapsto> 1],
        [elbow_key \<mapsto> 6, wrist_key \<mapsto> 1], [elbow_key \<mapsto> 6, wrist_key \<mapsto> 1],
        [elbow_key \<mapsto> 8, wrist_key \<mapsto> 1], [elbow_key \<mapsto> 8, wrist_key \<mapsto> 1]])) = 2
   \<and> elbow_changes_history (fst (run_elbow_filter (ElbowFlexFilter_init 2 5 0.8 True)
       [[elbow_key \<mapsto> 0, wrist_key \<mapsto> 1], [elbow_key \<mapsto> 0, wrist_key \<mapsto> 1],
        [elbow_key \<mapsto> 2, wrist_key \<mapsto> 1], [elbow_key \<mapsto> 2, wrist_key \<mapsto> 1],
        [elbow_key \<mapsto> 4, wrist_key \<mapsto> 1], [elbow_key \<mapsto> 4, wrist_key \<mapsto> 1],
        [elbow_key \<mapsto> 6, wrist_key \<mapsto> 1], [elbow_key \<mapsto> 6, wrist_key \<mapsto> 1],
        [elbow_key \<mapsto> 8, wrist_key \<mapsto> 1], [elbow_key \<mapsto> 8, wrist_key \<mapsto> 1],
        [elbow_key \<mapsto> 10, wrist_key \<mapsto> 1]])) = [0, 2, 0, 2, 0, 2, 0, 2, 0, 2]
   \<and> elbow_threshold (fst (run_elbow_filter (ElbowFlexFilter_init 2 5 0.8 True)
       [[elbow_key \<mapsto> 0, wrist_key \<mapsto> 1], [elbow_key \<mapsto> 0, wrist_key \<mapsto> 1],
        [elbow_key \<mapsto> 2, wrist_key \<mapsto> 1], [elbow_key \<mapsto> 2, wrist_key \<mapsto> 1],
        [elbow_key \<mapsto> 4, wrist_key \<mapsto> 1], [elbow_key \<mapsto> 4, wrist_key \<mapsto> 1],
        [elbow_key \<mapsto> 6, wrist_key \<mapsto> 1], [elbow_key \<mapsto> 6, wrist_key \<mapsto> 1],
        [elbow_key \<mapsto> 8, wrist_key \<mapsto> 1], [elbow_key \<mapsto> 8, wrist_key \<mapsto> 1],
        [elbow_key \<mapsto> 10, wrist_key \<mapsto> 1]])) = 2.05
   \<and> elbow_threshold (fst (run_elbow_filter (ElbowFlexFilter_init 2 5 0.8 False)
       [[elbow_key \<mapsto> 0, wrist_key \<mapsto> 1], [elbow_key \<mapsto> 0, wrist_key \<mapsto> 1],
        [elbow_key \<mapsto> 2, wrist_key \<mapsto> 1], [elbow_key \<mapsto> 2, wrist_key \<mapsto> 1],
        [elbow_key \<mapsto> 4, wrist_key \<mapsto> 1], [elbow_key \<mapsto> 4, wrist_key \<mapsto> 1],
        [elbow_key \<mapsto> 6, wrist_key \<mapsto> 1], [elbow_key \<mapsto> 6, wrist_key \<mapsto> 1],
        [elbow_key \<mapsto> 8, wrist_key \<mapsto> 1], [elbow_key \<mapsto> 8, wrist_key \<mapsto> 1],
        [elbow_key \<mapsto> 10, wrist_key \<mapsto> 1]])) = 2"
  using adaptive_threshold_update [of
       "[[elbow_key \<mapsto> 0, wrist_key \<mapsto> 1], [elbow_key \<mapsto> 0, wrist_key \<mapsto> 1],
        [elbow_key \<mapsto> 2, wrist_key \<mapsto> 1], [elbow_key \<mapsto> 2, wrist_key \<mapsto> 1],
        [elbow_key \<mapsto> 4, wrist_key \<mapsto> 1], [elbow_key \<mapsto> 4, wrist_key \<mapsto> 1],
        [elbow_key \<mapsto> 6, wrist_key \<mapsto> 1], [elbow_key \<mapsto> 6, wrist_key \<mapsto> 1],
        [elbow_key \<mapsto> 8, wrist_key \<mapsto> 1]]"
       "[elbow_key \<mapsto> 8, wrist_key \<mapsto> 1]"
       "ElbowFlexFilter_init 2 5 0.8 False"
       "[[elbow_key \<mapsto> 0, wrist_key \<mapsto> 1], [elbow_key \<mapsto> 0, wrist_key \<mapsto> 1],
        [elbow_key \<mapsto> 2, wrist_key \<mapsto> 1], [elbow_key \<mapsto> 2, wrist_key \<mapsto> 1],
        [elbow_key \<mapsto> 4, wrist_key \<mapsto> 1], [elbow_key \<mapsto> 4, wrist_key \<mapsto> 1],
        [elbow_key \<mapsto> 6, wrist_key \<mapsto> 1], [elbow_key \<mapsto> 6, wrist_key \<mapsto> 1],
        [elbow_key \<mapsto> 8, wrist_key \<mapsto> 1], [elbow_key \<mapsto> 8, wrist_key \<mapsto> 1],
        [elbow_key \<mapsto> 10, wrist_key \<mapsto> 1]]" 2 5 "0.8" True]
    adaptive_threshold_update [of
       "[[elbow_key \<mapsto> 0, wrist_key \<mapsto> 1], [elbow_key \<mapsto> 0, wrist_key \<mapsto> 1],
        [elbow_key \<mapsto> 2, wrist_key \<mapsto> 1], [elbow_key \<mapsto> 2, wrist_key \<mapsto> 1],
        [elbow_key \<mapsto> 4, wrist_key \<mapsto> 1], [elbow_key \<mapsto> 4, wrist_key \<mapsto> 1],
        [elbow_key \<mapsto> 6, wrist_key \<mapsto> 1], [elbow_key \<mapsto> 6, wrist_key \<mapsto> 1],
        [elbow_key \<mapsto> 8, wrist_key \<mapsto> 1], [elbow_key \<mapsto> 8, wrist_key \<mapsto> 1]]"
       "[elbow_key \<mapsto> 10, wrist_key \<mapsto> 1]"
       "ElbowFlexFilter_init 2 5 0.8 False" "[]" 2 5 "0.8" True]
  by (simp add: ElbowFlexFilter_init_def elbow_changes_def fifo_contents_def elbow_key_def
      wrist_key_def Let_def upt_rec)

section \<open>The elbow linked filter: one tick\<close>






section \<open>The recorder: the persisted recording\<close>

text \<open>
  Claim C1. The recording that \<open>save_recording\<close> writes for a sequence of frames holds
  the frames themselves, their number as \<open>num_frames\<close>, the timestamp of the last frame
  as \<open>duration\<close> (the integer 0 for no frames) and the keys of the first frame's action,
  in their order, as \<open>motor_names\<close> (the empty list for no frames).
\<close>

theorem save_recording_invariant:
  "save_recording frames output_path fps fs output_path
      = Some (Pickled (recording_data frames fps))
   \<and> recording_data frames fps ''num_frames'' = Some (PInt (int (length frames)))
   \<and> recording_data frames fps ''frames'' = Some (PFrames frames)
   \<and> recording_data frames fps ''duration''
        = Some (if frames = [] then PInt 0 else PFloat (timestamp (last frames)))
   \<and> recording_data frames fps ''motor_names''
        = Some (PNames (if frames = [] then [] else map fst (frame_action (hd frames))))
   \<and> recording_data frames fps ''fps'' = Some (PInt fps)"
  by (cases frames) (simp_all add: save_recording_def recording_data_def)

theorem save_recording_invariant_witness:
  "recording_data
     [\<lparr>timestamp = 0.03, frame_action = [(''shoulder_pan.pos'', 12), (''gripper.pos'', 1)]\<rparr>,
      \<lparr>timestamp = 0.07, frame_action = [(''shoulder_pan.pos'', 13), (''gripper.pos'', 1)]\<rparr>] 30
     ''num_frames'' = Some (PInt 2)
   \<and> recording_data
     [\<lparr>timestamp = 0.03, frame_action = [(''shoulder_pan.pos'', 12), (''gripper.pos'', 1)]\<rparr>,
      \<lparr>timestamp = 0.07, frame_action = [(''shoulder_pan.pos'', 13), (''gripper.pos'', 1)]\<rparr>] 30
     ''duration'' = Some (PFloat 0.07)
   \<and> recording_data
     [\<lparr>timestamp = 0.03, frame_action = [(''shoulder_pan.pos'', 12), (''gripper.pos'', 1)]\<rparr>,
      \<lparr>timestamp = 0.07, frame_action = [(''shoulder_pan.pos'', 13), (''gripper.pos'', 1)]\<rparr>] 30
     ''motor_names'' = Some (PNames [''shoulder_pan.pos'', ''gripper.pos''])
   \<and> recording_data [] 30 ''duration'' = Some (PInt 0)
   \<and> recording_data [] 30 ''motor_names'' = Some (PNames [])"
  using save_recording_invariant [of
     "[\<lparr>timestamp = 0.03, frame_action = [(''shoulder_pan.pos'', 12), (''gripper.pos'', 1)]\<rparr>,
      \<lparr>timestamp = 0.07, frame_action = [(''shoulder_pan.pos'', 13), (''gripper.pos'', 1)]\<rparr>]"
     "''out.pkl''" 30 Map.empty]
    save_recording_invariant [of "[]" "''out.pkl''" 30 Map.empty]
  by simp

section \<open>The recorder: the exit paths of a session\<close>

text \<open>
  When \<open>leader.disconnect()\<close> does not raise, every way out of \<open>record_motion.main\<close>
  (a failed connect, the user's interrupt, an exception in the loop) ends with the
  leader disconnected and then with the frames captured so far saved, or, when there
  are none, with the message and no file written.
\<close>

lemma record_loop_frames:
  "record_loop fps frames script = Some (r, frames') \<Longrightarrow> \<exists>more. frames' = frames @ more"
proof (induction fps frames script rule: record_loop.induct)
  case (2 fps frames a t rest)
  then show ?case by (auto simp: Let_def split: if_splits)
qed auto

lemma record_motion_persists:
  assumes "\<not> disconnect_raises leader"
    and "record_motion_main leader output fps script w = Some (st, w')"
  shows "\<exists>r frames.
           (case on_connect leader of
              ConnectOk \<Rightarrow> record_loop fps [] script = Some (r, frames)
            | ConnectRaises c \<Rightarrow> frames = [] \<and> r = Exception)
         \<and> \<not> leader_connected w'
         \<and> st = after_handlers r
         \<and> (frames \<noteq> [] \<longrightarrow>
               files w' = (files w)(output \<mapsto> Pickled (recording_data frames fps))
               \<and> last (trace w') = Saved output)
         \<and> (frames = [] \<longrightarrow> files w' = files w \<and> last (trace w') = NoFramesRecorded)"
  using assms
  by (auto simp: record_motion_main_def record_motion_finally_def save_if_any_def
      save_recording_def split: connect_result.splits option.splits if_splits)

lemma record_with_teleop_persists:
  assumes "\<not> disconnect_raises leader" and "\<not> disconnect_raises follower"
    and "record_with_teleop_main leader follower output fps script w = Some (st, w')"
    and "on_connect leader = ConnectOk" and "on_connect follower = ConnectOk"
  shows "\<exists>r frames. record_loop fps [] script = Some (r, frames)
         \<and> \<not> leader_connected w' \<and> \<not> follower_connected w'
         \<and> st = after_handlers r
         \<and> (frames \<noteq> [] \<longrightarrow>
               files w' = (files w)(output \<mapsto> Pickled (recording_data frames fps))
               \<and> last (trace w') = Saved output)
         \<and> (frames = [] \<longrightarrow> files w' = files w \<and> last (trace w') = NoFramesRecorded)"
  using assms
  by (auto simp: record_with_teleop_main_def record_with_teleop_finally_def save_if_any_def
      save_recording_def Let_def split: option.splits if_splits)

text \<open>
  Claim C9 says that the frames captured so far are persisted on every exit path. The
  \<open>finally\<close> block calls \<open>leader.disconnect()\<close> before it saves, outside any \<open>try\<close>:
  when that call raises (the device that failed in the loop is the one being
  disconnected), the block is left at once and the captured frames are never written.
  Here two frames were captured, a device call failed, and \<open>disconnect\<close> raised: no file
  exists afterwards.
\<close>

theorem record_motion_disconnect_raises:
  "record_motion_main
     \<lparr>on_connect = ConnectOk, disconnect_raises = True, accepts = (\<lambda>a. True)\<rparr>
     ''recorded_motion.pkl'' 30
     [Got [(''shoulder_pan.pos'', 12)] 0.03, Got [(''shoulder_pan.pos'', 13)] 0.07, Fault]
     \<lparr>leader_connected = False, follower_connected = False, files = Map.empty, trace = []\<rparr>
   = Some (Propagated,
       \<lparr>leader_connected = True, follower_connected = False, files = Map.empty, trace = []\<rparr>)"
  by (simp add: record_motion_main_def record_motion_finally_def)

section \<open>The player: loading a recording\<close>

lemma first_missing_None: "first_missing data keys = None \<longleftrightarrow> set keys \<subseteq> dom data"
  by (induction keys) auto

lemma first_missing_Some: "first_missing data keys = Some key \<Longrightarrow> key \<in> set keys \<and> data key = None"
  by (induction keys) (auto split: if_splits)

text \<open>
  Claim C7. For a file that unpickles to a dictionary, \<open>replay_motion.load_recording\<close>
  raises the \<open>ValueError\<close> for an invalid recording if and only if one of the keys
  \<open>fps\<close>, \<open>frames\<close>, \<open>num_frames\<close> is absent, and \<open>replay_all.load_recording\<close> returns
  \<open>None\<close> under the same condition. In \<open>replay_motion.main\<close> a failed load ends the
  program before the follower is connected and before anything is sent; in the file
  loop of \<open>replay_all.main\<close> the file is skipped and the loop goes on with the next
  file.
\<close>

theorem load_recording_invalid_format:
  "(fs p = Some (Pickled data) \<longrightarrow>
      ((\<exists>key. replay_motion_load_recording fs p = Inl (ValueError key))
         \<longleftrightarrow> \<not> {''fps'', ''frames'', ''num_frames''} \<subseteq> dom data)
      \<and> (replay_all_load_recording fs p = None
         \<longleftrightarrow> \<not> {''fps'', ''frames'', ''num_frames''} \<subseteq> dom data))
   \<and> (replay_motion_load_recording (files w) input = Inl e \<longrightarrow>
        replay_motion_main fuel follower input loop w
          = Some (Returned, w\<lparr>trace := trace w @ [ErrorLoading e]\<rparr>))
   \<and> (replay_all_load_recording (files w) pkl_file = None \<longrightarrow>
        replay_files follower loop n_files idx (pkl_file # rest) w
          = replay_files follower loop n_files (idx + 1) rest
              (w\<lparr>trace := trace w @ [Skipped pkl_file]\<rparr>))"
proof -
  have k: "set required_keys = {''fps'', ''frames'', ''num_frames''}"
    by (simp add: required_keys_def)
  have a: "(\<exists>key. replay_motion_load_recording fs p = Inl (ValueError key))
         \<longleftrightarrow> \<not> {''fps'', ''frames'', ''num_frames''} \<subseteq> dom data"
    if "fs p = Some (Pickled data)"
    using that first_missing_None [of data required_keys] unfolding k
    by (cases "first_missing data required_keys")
       (auto simp: replay_motion_load_recording_def)
  have b: "replay_all_load_recording fs p = None
         \<longleftrightarrow> \<not> {''fps'', ''frames'', ''num_frames''} \<subseteq> dom data"
    if "fs p = Some (Pickled data)"
    using that first_missing_None [of data required_keys] unfolding k
    by (cases "first_missing data required_keys")
       (auto simp: replay_all_load_recording_def)
  have c: "replay_motion_load_recording (files w) input = Inl e \<longrightarrow>
        replay_motion_main fuel follower input loop w
          = Some (Returned, w\<lparr>trace := trace w @ [ErrorLoading e]\<rparr>)"
    by (simp add: replay_motion_main_def)
  have d: "replay_all_load_recording (files w) pkl_file = None \<longrightarrow>
        replay_files follower loop n_files idx (pkl_file # rest) w
          = replay_files follower loop n_files (idx + 1) rest
              (w\<lparr>trace := trace w @ [Skipped pkl_file]\<rparr>)"
    by simp
  show ?thesis using a b c d by blast
qed

theorem load_recording_invalid_format_witness:
  "replay_motion_load_recording
      [''bad.pkl'' \<mapsto> Pickled [''fps'' \<mapsto> PInt 30, ''frames'' \<mapsto> PFrames []]] ''bad.pkl''
     = Inl (ValueError ''num_frames'')
   \<and> replay_motion_main 1 \<lparr>on_connect = ConnectOk, disconnect_raises = False,
          accepts = (\<lambda>a. True)\<rparr> ''bad.pkl'' False
        \<lparr>leader_connected = False, follower_connected = False,
         files = [''bad.pkl'' \<mapsto> Pickled [''fps'' \<mapsto> PInt 30, ''frames'' \<mapsto> PFrames []]],
         trace = []\<rparr>
     = Some (Returned,
        \<lparr>leader_connected = False, follower_connected = False,
         files = [''bad.pkl'' \<mapsto> Pickled [''fps'' \<mapsto> PInt 30, ''frames'' \<mapsto> PFrames []]],
         trace = [ErrorLoading (ValueError ''num_frames'')]\<rparr>)
   \<and> trace (fst (replay_files \<lparr>on_connect = ConnectOk, disconnect_raises = False,
          accepts = (\<lambda>a. True)\<rparr> False 2 1 [''bad.pkl'', ''good.pkl'']
        \<lparr>leader_connected = False, follower_connected = True,
         files = [''bad.pkl'' \<mapsto> Pickled [''fps'' \<mapsto> PInt 30, ''frames'' \<mapsto> PFrames []],
                  ''good.pkl'' \<mapsto> Pickled (recording_data
                      [\<lparr>timestamp = 0.03, frame_action = [(''gripper.pos'', 1)]\<rparr>] 30)],
         trace = []\<rparr>))
     = [Skipped ''bad.pkl'', Sent [(''gripper.pos'', 1)]]"
  using load_recording_invalid_format [of
      "[''bad.pkl'' \<mapsto> Pickled [''fps'' \<mapsto> PInt 30, ''frames'' \<mapsto> PFrames []]]" "''bad.pkl''"
      "[''fps'' \<mapsto> PInt 30, ''frames'' \<mapsto> PFrames []]"
      "\<lparr>leader_connected = False, follower_connected = False,
         files = [''bad.pkl'' \<mapsto> Pickled [''fps'' \<mapsto> PInt 30, ''frames'' \<mapsto> PFrames []]],
         trace = []\<rparr>" "''bad.pkl''" "ValueError ''num_frames''" 1
      "\<lparr>on_connect = ConnectOk, disconnect_raises = False, accepts = (\<lambda>a. True)\<rparr>" False]
    load_recording_invalid_format [of Map.empty "''x''" Map.empty
      "\<lparr>leader_connected = False, follower_connected = True,
         files = [''bad.pkl'' \<mapsto> Pickled [''fps'' \<mapsto> PInt 30, ''frames'' \<mapsto> PFrames []],
                  ''good.pkl'' \<mapsto> Pickled (recording_data
                      [\<lparr>timestamp = 0.03, frame_action = [(''gripper.pos'', 1)]\<rparr>] 30)],
         trace = []\<rparr>" "''x''" KeyError 1
      "\<lparr>on_connect = ConnectOk, disconnect_raises = False, accepts = (\<lambda>a. True)\<rparr>" False
      "''bad.pkl''" 2 1 "[''good.pkl'']"]
  by (simp add: replay_motion_load_recording_def replay_all_load_recording_def required_keys_def
      replay_motion_main_def replay_recording_def replay_frames_def modulo_error_def
      printable_duration_def recording_data_def)

section \<open>The player: the order of the files\<close>

text \<open>The source's sort key orders file names as the specification says.\<close>

lemma sort_key_of_le: "sort_key_of a \<le> sort_key_of b \<longleftrightarrow> may_precede a b"
  by (auto simp: sort_key_of_def may_precede_def split: option.splits)

text \<open>
  When a name is of a family: it starts with the prefix and at least one digit, and its
  number is the whole run of digits after the prefix.
\<close>

lemma re_match_number_iff:
  "re_match_number pre name = Some n \<longleftrightarrow>
     (\<exists>ds rest. name = pre @ ds @ rest \<and> ds \<noteq> [] \<and> (\<forall>c\<in>set ds. is_digit c)
         \<and> (rest = [] \<or> \<not> is_digit (hd rest)) \<and> n = int_of_digits ds)"
proof
  assume m: "re_match_number pre name = Some n"
  let ?ds = "takeWhile is_digit (drop (length pre) name)"
  let ?rest = "dropWhile is_digit (drop (length pre) name)"
  from m have p: "take (length pre) name = pre" and ne: "?ds \<noteq> []" and n: "n = int_of_digits ?ds"
    by (auto simp: re_match_number_def Let_def split: if_splits)
  have "name = take (length pre) name @ drop (length pre) name" by simp
  also have "\<dots> = pre @ ?ds @ ?rest" using p by simp
  finally have a: "name = pre @ ?ds @ ?rest" .
  have b: "\<forall>c\<in>set ?ds. is_digit c" by (auto dest: set_takeWhileD)
  have c: "?rest = [] \<or> \<not> is_digit (hd ?rest)"
    using hd_dropWhile [of is_digit "drop (length pre) name"] by blast
  show "\<exists>ds rest. name = pre @ ds @ rest \<and> ds \<noteq> [] \<and> (\<forall>c\<in>set ds. is_digit c)
         \<and> (rest = [] \<or> \<not> is_digit (hd rest)) \<and> n = int_of_digits ds"
    using a ne b c n by blast
next
  assume "\<exists>ds rest. name = pre @ ds @ rest \<and> ds \<noteq> [] \<and> (\<forall>c\<in>set ds. is_digit c)
         \<and> (rest = [] \<or> \<not> is_digit (hd rest)) \<and> n = int_of_digits ds"
  then obtain ds rest where a: "name = pre @ ds @ rest" and ne: "ds \<noteq> []"
    and b: "\<forall>c\<in>set ds. is_digit c" and c: "rest = [] \<or> \<not> is_digit (hd rest)"
    and n: "n = int_of_digits ds" by blast
  have "takeWhile is_digit (ds @ rest) = ds"
  proof (cases rest)
    case Nil
    then show ?thesis using b by simp
  next
    case (Cons r rs)
    then show ?thesis using b c by (simp add: takeWhile_append2)
  qed
  then show "re_match_number pre name = Some n"
    using a ne n by (simp add: re_match_number_def)
qed

lemma sorted_by_key_nth:
  assumes "i < j" and "j < length (sort_key f xs)"
  shows "f (sort_key f xs ! i) \<le> f (sort_key f xs ! j)"
proof -
  have "sorted (map f (sort_key f xs))" by (rule sorted_sort_key)
  then have "map f (sort_key f xs) ! i \<le> map f (sort_key f xs) ! j"
    using assms by (intro sorted_nth_mono) simp_all
  then show ?thesis using assms by simp
qed

lemma scenario_replay_all:
  "replay_all_find_pkl_files
     [''conf2.pkl'', ''anx1.pkl'', ''conf1.pkl'', ''zeta.pkl'', ''anx3.pkl'']
   = [''conf1.pkl'', ''conf2.pkl'', ''anx1.pkl'', ''anx3.pkl'', ''zeta.pkl'']"
  by code_simp

lemma scenario_select:
  "select_find_pkl_files
     [\<lparr>entry_name = ''conf2'', is_file = True\<rparr>, \<lparr>entry_name = ''anx1'', is_file = True\<rparr>,
      \<lparr>entry_name = ''conf1'', is_file = True\<rparr>, \<lparr>entry_name = ''zeta.pkl'', is_file = True\<rparr>,
      \<lparr>entry_name = ''anx3'', is_file = True\<rparr>]
   = [''conf1'', ''conf2'', ''anx1'', ''anx3'', ''zeta.pkl'']"
  by code_simp

lemma scenario_numbers:
  "replay_all_find_pkl_files [''b.pkl'', ''conf10.pkl'', ''anx12.pkl'', ''a.pkl'', ''conf9.pkl'',
      ''anx2.pkl'', ''notes.txt'']
   = [''conf9.pkl'', ''conf10.pkl'', ''anx2.pkl'', ''anx12.pkl'', ''a.pkl'', ''b.pkl'']"
  by code_simp

lemma scenario_patterns:
  "re_match_number ''conf'' ''conf12'' = Some 12"
  "re_match_number ''conf'' ''conf007x'' = Some 7"
  "re_match_number ''conf'' ''config'' = None"
  "re_match_number ''anx'' ''anx3'' = Some 3"
  "re_match_number ''anx'' ''zeta'' = None"
  by code_simp+

text \<open>
  Claim C8. Both \<open>find_pkl_files\<close> return the selected files (the \<open>*.pkl\<close> names for
  \<open>replay_all\<close>; for \<open>select_and_replay\<close> the regular files with the suffix \<open>.pkl\<close> or
  with a recording name), each exactly once, in an order where every earlier name may
  precede every later one: the names of the first family (\<open>conf\<close> and a number) first,
  by their number; the names of the second family (\<open>anx\<close> and a number) next, by their
  number; all other names last, in lexical order. A name is of a family when it starts
  with the prefix of the family followed by at least one digit, and its number is the
  run of digits after the prefix, read in base ten. The witness is the scenario of the
  specification, for both scripts, and a directory with numbers of two digits.
\<close>

theorem find_pkl_files_order:
  "mset (replay_all_find_pkl_files names) = mset (filter glob_pkl names)
   \<and> (\<forall>i j. i < j \<and> j < length (replay_all_find_pkl_files names) \<longrightarrow>
         may_precede (path_stem (replay_all_find_pkl_files names ! i))
                     (path_stem (replay_all_find_pkl_files names ! j)))
   \<and> mset (select_find_pkl_files entries) =
       mset (map entry_name
              (filter (\<lambda>e. is_file e \<and> (path_suffix (entry_name e) = ''.pkl''
                                        \<or> re_match_recording_name (entry_name e))) entries))
   \<and> (\<forall>i j. i < j \<and> j < length (select_find_pkl_files entries) \<longrightarrow>
         may_precede (select_filename (select_find_pkl_files entries ! i))
                     (select_filename (select_find_pkl_files entries ! j)))
   \<and> (re_match_number pre nm = Some n \<longleftrightarrow>
        (\<exists>ds rest. nm = pre @ ds @ rest \<and> ds \<noteq> [] \<and> (\<forall>c\<in>set ds. is_digit c)
           \<and> (rest = [] \<or> \<not> is_digit (hd rest)) \<and> n = int_of_digits ds))"
proof -
  have m: "mset (replay_all_find_pkl_files names) = mset (filter glob_pkl names)"
    by (simp add: replay_all_find_pkl_files_def)
  have o: "may_precede (path_stem (replay_all_find_pkl_files names ! i))
                       (path_stem (replay_all_find_pkl_files names ! j))"
    if "i < j" "j < length (replay_all_find_pkl_files names)" for i j
    using sorted_by_key_nth [of i j replay_all_sort_key "filter glob_pkl names"] that
    by (simp add: replay_all_find_pkl_files_def replay_all_sort_key_def sort_key_of_le)
  have s: "mset (select_find_pkl_files entries) =
       mset (map entry_name
              (filter (\<lambda>e. is_file e \<and> (path_suffix (entry_name e) = ''.pkl''
                                        \<or> re_match_recording_name (entry_name e))) entries))"
    by (simp add: select_find_pkl_files_def)
  have t: "may_precede (select_filename (select_find_pkl_files entries ! i))
                       (select_filename (select_find_pkl_files entries ! j))"
    if "i < j" "j < length (select_find_pkl_files entries)" for i j
    using sorted_by_key_nth [of i j select_sort_key] that
    by (simp add: select_find_pkl_files_def select_sort_key_def sort_key_of_le)
  show ?thesis using m o s t re_match_number_iff [of pre nm n] by blast
qed

theorem find_pkl_files_order_witness:
  "replay_all_find_pkl_files
     [''conf2.pkl'', ''anx1.pkl'', ''conf1.pkl'', ''zeta.pkl'', ''anx3.pkl'']
   = [''conf1.pkl'', ''conf2.pkl'', ''anx1.pkl'', ''anx3.pkl'', ''zeta.pkl'']
   \<and> select_find_pkl_files
     [\<lparr>entry_name = ''conf2'', is_file = True\<rparr>, \<lparr>entry_name = ''anx1'', is_file = True\<rparr>,
      \<lparr>entry_name = ''conf1'', is_file = True\<rparr>, \<lparr>entry_name = ''zeta.pkl'', is_file = True\<rparr>,
      \<lparr>entry_name = ''anx3'', is_file = True\<rparr>]
   = [''conf1'', ''conf2'', ''anx1'', ''anx3'', ''zeta.pkl'']
   \<and> replay_all_find_pkl_files [''b.pkl'', ''conf10.pkl'', ''anx12.pkl'', ''a.pkl'', ''conf9.pkl'',
      ''anx2.pkl'', ''notes.txt'']
   = [''conf9.pkl'', ''conf10.pkl'', ''anx2.pkl'', ''anx12.pkl'', ''a.pkl'', ''b.pkl'']
   \<and> re_match_number ''conf'' ''conf12'' = Some 12
   \<and> re_match_number ''conf'' ''conf007x'' = Some 7
   \<and> re_match_number ''conf'' ''config'' = None
   \<and> re_match_number ''anx'' ''anx3'' = Some 3
   \<and> re_match_number ''anx'' ''zeta'' = None"
  using find_pkl_files_order [of
      "[''conf2.pkl'', ''anx1.pkl'', ''conf1.pkl'', ''zeta.pkl'', ''anx3.pkl'']"
      "[\<lparr>entry_name = ''conf2'', is_file = True\<rparr>, \<lparr>entry_name = ''anx1'', is_file = True\<rparr>,
      \<lparr>entry_name = ''conf1'', is_file = True\<rparr>, \<lparr>entry_name = ''zeta.pkl'', is_file = True\<rparr>,
      \<lparr>entry_name = ''anx3'', is_file = True\<rparr>]"]
    scenario_replay_all scenario_select scenario_numbers scenario_patterns
  by simp

end
